theory Spec2Isabelle
  imports Complex_Main
begin

section \<open>The billing API client (src/quantdinger_vue/src/api/billing.js)\<close>

text \<open>
  Every function of the API module builds one request descriptor and hands it to the
  HTTP layer. The descriptor is a record; \<open>verb\<close> is the HTTP verb (the key
  \<open>"method"\<close> of the source's descriptor), \<open>params\<close> the query string and \<open>payload\<close> the
  JSON body (the key \<open>data\<close>).
\<close>

datatype http_method = GET | POST

record request =
  url :: string
  verb :: http_method
  params :: "(string \<times> int) list"
  payload :: "(string \<times> string) list"

definition Plans :: string where
  "Plans = ''/api/billing/plans''"

definition UsdtCreate :: string where
  "UsdtCreate = ''/api/billing/usdt/create''"

definition UsdtOrder :: "string \<Rightarrow> string" where
  "UsdtOrder oid = ''/api/billing/usdt/order/'' @ oid"

definition getMembershipPlans :: request where
  "getMembershipPlans = \<lparr>url = Plans, verb = GET, params = [], payload = []\<rparr>"

definition createUsdtOrder :: "string \<Rightarrow> request" where
  "createUsdtOrder plan =
     \<lparr>url = UsdtCreate, verb = POST, params = [], payload = [(''plan'', plan)]\<rparr>"

text \<open>
  \<open>getUsdtOrder (orderId, refresh = true)\<close>: an omitted second argument is \<open>None\<close> and
  takes the default.
\<close>

definition getUsdtOrder :: "string \<Rightarrow> bool option \<Rightarrow> request" where
  "getUsdtOrder orderId refresh =
     (let r = (case refresh of None \<Rightarrow> True | Some b \<Rightarrow> b)
      in \<lparr>url = UsdtOrder orderId, verb = GET,
          params = [(''refresh'', if r then 1 else 0)], payload = []\<rparr>)"


section \<open>The billing page (src/quantdinger_vue/src/views/billing/index.vue)\<close>

subsection \<open>Data\<close>

text \<open>
  The order object the server sends. Every field the page reads is optional: an absent
  or \<open>null\<close> field is \<open>None\<close>. A string is falsy exactly when it is empty.
\<close>

record usdt_order =
  order_id :: "string option"
  status :: "string option"
  address :: "string option"
  amount_usdt :: "string option"
  chain :: "string option"
  expires_at :: "string option"

definition truthy :: "string option \<Rightarrow> bool" where
  "truthy v = (case v of None \<Rightarrow> False | Some s \<Rightarrow> s \<noteq> [])"

text \<open>\<open>a || b\<close> on an optional string and a string.\<close>

definition or_else :: "string option \<Rightarrow> string \<Rightarrow> string" where
  "or_else v d = (case v of None \<Rightarrow> d | Some s \<Rightarrow> if s \<noteq> [] then s else d)"

record plan_entry =
  price_usd :: rat
  credits_once :: "nat option"
  credits_monthly :: "nat option"

record plan_table =
  monthly :: plan_entry
  yearly :: plan_entry
  lifetime :: plan_entry

record billing_info =
  credits :: rat
  is_vip :: bool
  vip_expires_at :: "string option"

text \<open>The body of \<open>GET /api/billing/plans\<close>: both parts may be missing.\<close>

record plans_data =
  data_plans :: "plan_table option"
  data_billing :: "billing_info option"

text \<open>
  A response envelope \<open>{code, msg, data}\<close>, and what an awaited request comes to: the
  promise rejects (with the server's message \<open>e?.response?.data?.msg\<close>, if any) or it
  resolves to an envelope, which may itself be missing (\<open>res && ...\<close>).
\<close>

record 'a response =
  code :: int
  msg :: "string option"
  data :: "'a option"

datatype 'a outcome = Rejected "string option" | Resolved "'a response option"

text \<open>\<open>res && res.code === 1 && res.data\<close>: the data of a successful response.\<close>

definition succeeded :: "'a outcome \<Rightarrow> 'a option" where
  "succeeded out =
     (case out of
        Rejected e \<Rightarrow> None
      | Resolved None \<Rightarrow> None
      | Resolved (Some res) \<Rightarrow> if code res = 1 then data res else None)"

datatype toast = Success string | Error string

text \<open>
  The component's \<open>data ()\<close>, extended by what the page does to its surroundings: the
  intervals it has scheduled with \<open>setInterval\<close> and not cleared (handle and delay in
  milliseconds; the callback is always \<open>refreshUsdtOrder\<close>), the next handle the browser
  will hand out, the requests sent and the messages shown.
\<close>

record billing_page =
  loading :: bool
  purchasing :: string
  usdtModalVisible :: bool
  usdtOrder :: "usdt_order option"
  usdtPollingTimer :: "nat option"
  usdtRefreshing :: bool
  billing :: billing_info
  plans :: plan_table

record page = billing_page +
  intervals :: "(nat \<times> nat) list"
  next_handle :: nat
  sent :: "request list"
  toasts :: "toast list"

definition default_plans :: plan_table where
  "default_plans =
     \<lparr>monthly = \<lparr>price_usd = 199 / 10, credits_once = Some 500, credits_monthly = None\<rparr>,
      yearly = \<lparr>price_usd = 199, credits_once = Some 8000, credits_monthly = None\<rparr>,
      lifetime = \<lparr>price_usd = 499, credits_once = None, credits_monthly = Some 800\<rparr>\<rparr>"

text \<open>The page as \<open>data ()\<close> leaves it, in a browser whose next timer handle is \<open>n\<close>.\<close>

definition initial :: "nat \<Rightarrow> page" where
  "initial n =
     \<lparr>loading = False, purchasing = [], usdtModalVisible = False, usdtOrder = None,
      usdtPollingTimer = None, usdtRefreshing = False,
      billing = \<lparr>credits = 0, is_vip = False, vip_expires_at = None\<rparr>,
      plans = default_plans,
      intervals = [], next_handle = n, sent = [], toasts = []\<rparr>"


subsection \<open>Computed properties\<close>

text \<open>
  \<open>(this.usdtOrder && this.usdtOrder.status) ? String(this.usdtOrder.status) : ''\<close>,
  the first line of \<open>statusText\<close>, \<open>statusColor\<close> and \<open>usdtStepCurrent\<close>.
\<close>

definition status_string :: "usdt_order option \<Rightarrow> string" where
  "status_string ord =
     (case ord of
        None \<Rightarrow> []
      | Some d \<Rightarrow> or_else (status d) [])"

text \<open>
  The object literal of \<open>statusText\<close>, with \<open>t\<close> the translation function \<open>$t\<close>.
\<close>

definition status_map :: "(string \<Rightarrow> string) \<Rightarrow> (string \<times> string) list" where
  "status_map t =
     [(''pending'', t ''billing.usdt.status.pending''),
      (''paid'', t ''billing.usdt.status.paid''),
      (''confirmed'', t ''billing.usdt.status.confirmed''),
      (''expired'', t ''billing.usdt.status.expired''),
      (''cancelled'', t ''billing.usdt.status.cancelled''),
      (''failed'', t ''billing.usdt.status.failed'')]"

text \<open>
  \<open>map[s]\<close> on an object literal finds the literal's own keys first and then the members
  every object inherits from \<open>Object.prototype\<close>, which are functions or objects
  (truthy, and not strings).
\<close>

definition object_prototype_keys :: "string list" where
  "object_prototype_keys =
     [''constructor'', ''hasOwnProperty'', ''isPrototypeOf'', ''propertyIsEnumerable'',
      ''toLocaleString'', ''toString'', ''valueOf'', ''__proto__'',
      ''__defineGetter__'', ''__defineSetter__'', ''__lookupGetter__'',
      ''__lookupSetter__'']"

datatype display = Text string | Inherited string

definition statusText :: "(string \<Rightarrow> string) \<Rightarrow> usdt_order option \<Rightarrow> display" where
  "statusText t ord =
     (let s = status_string ord in
      case map_of (status_map t) s of
        Some label \<Rightarrow> Text (or_else (Some label) (or_else (Some s) ''--''))
      | None \<Rightarrow>
          if s \<in> set object_prototype_keys then Inherited s
          else Text (or_else (Some s) ''--''))"

definition statusColor :: "usdt_order option \<Rightarrow> string" where
  "statusColor ord =
     (let s = status_string ord in
      if s = ''confirmed'' then ''green''
      else if s = ''paid'' then ''blue''
      else if s = ''expired'' \<or> s = ''failed'' \<or> s = ''cancelled'' then ''red''
      else ''orange'')"

definition usdtStepCurrent :: "usdt_order option \<Rightarrow> nat" where
  "usdtStepCurrent ord =
     (let s = status_string ord in
      if s = ''confirmed'' then 2
      else if s = ''paid'' then 1
      else 0)"


subsection \<open>Methods\<close>

text \<open>
  \<open>stopUsdtPolling\<close>: a handle is a number and is truthy when it is not \<open>0\<close> (the handles
  a browser returns are greater than zero); \<open>clearInterval\<close> removes the interval with
  that handle.
\<close>

definition stopUsdtPolling :: "page \<Rightarrow> page" where
  "stopUsdtPolling w =
     (case usdtPollingTimer w of
        None \<Rightarrow> w
      | Some h \<Rightarrow>
          if h = 0 then w
          else w\<lparr>intervals := filter (\<lambda>(h', ms). h' \<noteq> h) (intervals w),
                 usdtPollingTimer := None\<rparr>)"

text \<open>
  \<open>startUsdtPolling\<close>: \<open>setInterval\<close> schedules the callback every 5000 ms and returns
  the browser's next handle.
\<close>

definition startUsdtPolling :: "page \<Rightarrow> page" where
  "startUsdtPolling w =
     (let w1 = stopUsdtPolling w; h = next_handle w1
      in w1\<lparr>intervals := intervals w1 @ [(h, 5000)], next_handle := Suc h,
             usdtPollingTimer := Some h\<rparr>)"

definition closeUsdtModal :: "page \<Rightarrow> page" where
  "closeUsdtModal w = stopUsdtPolling (w\<lparr>usdtModalVisible := False\<rparr>)"

definition beforeDestroy :: "page \<Rightarrow> page" where
  "beforeDestroy w = stopUsdtPolling w"

text \<open>
  The message of a failed request: \<open>res?.msg\<close> of an unsuccessful envelope,
  \<open>e?.response?.data?.msg\<close> of a rejection.
\<close>

definition failure_msg :: "'a outcome \<Rightarrow> string option" where
  "failure_msg out =
     (case out of
        Rejected e \<Rightarrow> e
      | Resolved None \<Rightarrow> None
      | Resolved (Some res) \<Rightarrow> msg res)"

text \<open>
  An \<open>async\<close> function runs to its \<open>await\<close>, and resumes with what the awaited request
  came to; other handlers can run in between. Each of them is therefore two functions:
  the part before the \<open>await\<close> (\<open>_begin\<close>) and the part after it (\<open>_resume\<close>).
\<close>

definition load_begin :: "page \<Rightarrow> page" where
  "load_begin w = w\<lparr>loading := True, sent := sent w @ [getMembershipPlans]\<rparr>"

definition load_resume :: "plans_data outcome \<Rightarrow> page \<Rightarrow> page" where
  "load_resume out w =
     (let w1 =
        (case succeeded out of
           Some d \<Rightarrow>
             w\<lparr>plans := (case data_plans d of Some p \<Rightarrow> p | None \<Rightarrow> plans w),
               billing := (case data_billing d of Some b \<Rightarrow> b | None \<Rightarrow> billing w)\<rparr>
         | None \<Rightarrow>
             w\<lparr>toasts := toasts w @ [Error (or_else (failure_msg out) ''Load failed'')]\<rparr>)
      in w1\<lparr>loading := False\<rparr>)"

definition load :: "plans_data outcome \<Rightarrow> page \<Rightarrow> page" where
  "load out w = load_resume out (load_begin w)"

definition buy_begin :: "string \<Rightarrow> page \<Rightarrow> page" where
  "buy_begin plan w = w\<lparr>purchasing := plan, sent := sent w @ [createUsdtOrder plan]\<rparr>"

definition buy_resume :: "(string \<Rightarrow> string) \<Rightarrow> usdt_order outcome \<Rightarrow> page \<Rightarrow> page" where
  "buy_resume t out w =
     (let w1 =
        (case succeeded out of
           Some d \<Rightarrow> startUsdtPolling (w\<lparr>usdtOrder := Some d, usdtModalVisible := True\<rparr>)
         | None \<Rightarrow>
             w\<lparr>toasts := toasts w @
                 [Error (or_else (failure_msg out) (t ''billing.purchaseFailed''))]\<rparr>)
      in w1\<lparr>purchasing := []\<rparr>)"

definition buy :: "(string \<Rightarrow> string) \<Rightarrow> string \<Rightarrow> usdt_order outcome \<Rightarrow> page \<Rightarrow> page" where
  "buy t plan out w = buy_resume t out (buy_begin plan w)"

text \<open>
  \<open>refreshUsdtOrder\<close> returns at once when \<open>!this.usdtOrder || !this.usdtOrder.order_id\<close>.
\<close>

definition refresh_skips :: "page \<Rightarrow> bool" where
  "refresh_skips w =
     (case usdtOrder w of None \<Rightarrow> True | Some d \<Rightarrow> \<not> truthy (order_id d))"

definition refresh_begin :: "page \<Rightarrow> page" where
  "refresh_begin w =
     (case usdtOrder w of
        None \<Rightarrow> w
      | Some d \<Rightarrow>
          (case order_id d of
             None \<Rightarrow> w
           | Some oid \<Rightarrow>
               if oid = [] then w
               else w\<lparr>usdtRefreshing := True,
                      sent := sent w @ [getUsdtOrder oid (Some True)]\<rparr>))"

text \<open>
  Whether the response is a success that reports the order as confirmed: the one case in
  which \<open>refreshUsdtOrder\<close> goes on to \<open>await this.load()\<close> and \<open>stopUsdtPolling\<close>.
\<close>

definition confirms :: "usdt_order outcome \<Rightarrow> bool" where
  "confirms out =
     (case succeeded out of None \<Rightarrow> False | Some d \<Rightarrow> status d = Some ''confirmed'')"

text \<open>
  After \<open>await getUsdtOrder (...)\<close>: up to \<open>await this.load()\<close> when the order is
  confirmed, through the (empty) \<open>catch\<close> and the \<open>finally\<close> otherwise.
\<close>

definition refresh_resume :: "(string \<Rightarrow> string) \<Rightarrow> usdt_order outcome \<Rightarrow> page \<Rightarrow> page" where
  "refresh_resume t out w =
     (case succeeded out of
        Some d \<Rightarrow>
          (let w1 = w\<lparr>usdtOrder := Some d\<rparr>
           in if status d = Some ''confirmed''
              then load_begin
                     (w1\<lparr>toasts := toasts w1 @ [Success (t ''billing.usdt.paidSuccess'')]\<rparr>)
              else w1\<lparr>usdtRefreshing := False\<rparr>)
      | None \<Rightarrow> w\<lparr>usdtRefreshing := False\<rparr>)"

text \<open>After \<open>await this.load()\<close>: the rest of \<open>load\<close>, \<open>stopUsdtPolling\<close>, \<open>finally\<close>.\<close>

definition refresh_finish :: "plans_data outcome \<Rightarrow> page \<Rightarrow> page" where
  "refresh_finish lo w = (stopUsdtPolling (load_resume lo w))\<lparr>usdtRefreshing := False\<rparr>"

text \<open>
  One whole call of \<open>refreshUsdtOrder\<close> with nothing running in between: \<open>out\<close> is what
  \<open>getUsdtOrder\<close> comes to and \<open>lo\<close> what the request of \<open>load\<close> comes to, if it is made.
\<close>

definition refreshUsdtOrder ::
  "(string \<Rightarrow> string) \<Rightarrow> usdt_order outcome \<Rightarrow> plans_data outcome \<Rightarrow> page \<Rightarrow> page" where
  "refreshUsdtOrder t out lo w =
     (if refresh_skips w then w
      else let w1 = refresh_resume t out (refresh_begin w)
           in if confirms out then refresh_finish lo w1 else w1)"


subsection \<open>Handlers as events\<close>

text \<open>
  What can happen to the page, one event per piece of code that runs without
  interruption: the hooks \<open>created\<close> and \<open>beforeDestroy\<close>, the clicks, an interval firing,
  and the resumption of each \<open>await\<close>. Sequences of events are all the interleavings of
  the page's handlers.
\<close>

datatype event =
    Created
  | Plans_loaded "plans_data outcome"
  | Buy_clicked string
  | Order_created "usdt_order outcome"
  | Refresh_clicked
  | Interval_fired nat
  | Order_refreshed "usdt_order outcome"
  | Refresh_plans_loaded "plans_data outcome"
  | Modal_closed
  | Destroyed

fun step :: "(string \<Rightarrow> string) \<Rightarrow> event \<Rightarrow> page \<Rightarrow> page" where
  "step t Created w = load_begin w"
| "step t (Plans_loaded lo) w = load_resume lo w"
| "step t (Buy_clicked plan) w = buy_begin plan w"
| "step t (Order_created out) w = buy_resume t out w"
| "step t Refresh_clicked w = refresh_begin w"
| "step t (Interval_fired h) w = (if h \<in> fst ` set (intervals w) then refresh_begin w else w)"
| "step t (Order_refreshed out) w = refresh_resume t out w"
| "step t (Refresh_plans_loaded lo) w = refresh_finish lo w"
| "step t Modal_closed w = closeUsdtModal w"
| "step t Destroyed w = beforeDestroy w"

definition run :: "(string \<Rightarrow> string) \<Rightarrow> event list \<Rightarrow> page \<Rightarrow> page" where
  "run t es w = fold (step t) es w"

text \<open>
  The timer invariant: the handle is null and nothing is scheduled, or it is the handle
  of the one scheduled interval. Handles are positive and below the browser's next one.
\<close>

definition polling_inv :: "page \<Rightarrow> bool" where
  "polling_inv w =
     (0 < next_handle w \<and>
      (case usdtPollingTimer w of
         None \<Rightarrow> intervals w = []
       | Some h \<Rightarrow> 0 < h \<and> h < next_handle w \<and> intervals w = [(h, 5000)]))"

text \<open>
  The polling loop: as long as an interval is scheduled it fires, once for each element
  of \<open>outs\<close>, and every call of \<open>refreshUsdtOrder\<close> finishes before the next firing.
\<close>

fun poll ::
  "(string \<Rightarrow> string) \<Rightarrow> usdt_order outcome list \<Rightarrow> plans_data outcome \<Rightarrow> page \<Rightarrow> page" where
  "poll t [] lo w = w"
| "poll t (out # outs) lo w =
     (if intervals w = [] then w else poll t outs lo (refreshUsdtOrder t out lo w))"


section \<open>The payment order engine behind the API\<close>

text \<open>
  The server that answers \<open>/api/billing/usdt/...\<close> is not among the sources of the
  client; the definitions of this section follow the words of the specification
  (sections 3 to 6).
\<close>

subsection \<open>Orders and their state machine\<close>

text \<open>
  Modelled from the spec: the status of a payment order, "one of pending, paid,
  confirmed, expired, cancelled, failed" (section 3); the type is missing from the
  sources.
\<close>

datatype order_status = Pending | Paid | Confirmed | Expired | Cancelled | Failed

text \<open>
  Modelled from the spec: the name of a status as the API sends it and the client
  compares it (section 3 writes the six names in lower case).
\<close>

fun status_name :: "order_status \<Rightarrow> string" where
  "status_name Pending = ''pending''"
| "status_name Paid = ''paid''"
| "status_name Confirmed = ''confirmed''"
| "status_name Expired = ''expired''"
| "status_name Cancelled = ''cancelled''"
| "status_name Failed = ''failed''"

text \<open>
  Modelled from the spec: the transition table of section 4.2, one list of successor
  states per state. The last row of the table ("any non-terminal ... failed") gives
  \<open>Failed\<close> as a successor of \<open>Pending\<close> and of \<open>Paid\<close>.
\<close>

fun transitions :: "order_status \<Rightarrow> order_status list" where
  "transitions Pending = [Paid, Expired, Cancelled, Failed]"
| "transitions Paid = [Confirmed, Failed]"
| "transitions Confirmed = []"
| "transitions Expired = []"
| "transitions Cancelled = []"
| "transitions Failed = []"

text \<open>Modelled from the spec: a state is terminal when the table has no row leaving it.\<close>

definition terminal :: "order_status \<Rightarrow> bool" where
  "terminal st = (transitions st = [])"

text \<open>
  Modelled from the spec: the entity \<open>PaymentOrder\<close> of section 3, field by field (the
  prefix keeps the fields apart from those of the client's order object).
  Identifiers and timestamps are natural numbers, amounts are exact decimals.
\<close>

record payment_order =
  po_order_id :: nat
  po_owner_id :: nat
  po_plan :: string
  po_derivation_index :: nat
  po_address :: string
  po_expected_amount :: rat
  po_observed_amount :: rat
  po_status :: order_status
  po_tx_reference :: "string option"
  po_created_at :: nat
  po_expires_at :: nat
  po_confirmed_at :: "nat option"
  po_settlement_applied :: bool

text \<open>
  Modelled from the spec: one transfer of \<open>ListTransfers (address)\<close> (section 6).
\<close>

record transfer =
  amount :: rat
  tx_reference :: string
  confirmations :: nat

text \<open>
  Modelled from the spec: the configured values of sections 3 and 4: the negative
  tolerance on the amount, the required confirmation depth and the fixed time to live.
\<close>

record config =
  tolerance :: rat
  depth :: nat
  fixed_ttl :: nat

text \<open>
  Modelled from the spec: the account ledger as the list of settlements applied to it,
  each \<open>ApplySettlement (owner_id, plan)\<close> of section 6 one entry.
\<close>

type_synonym ledger = "(nat \<times> string) list"

text \<open>
  Modelled from the spec: the Order Store of section 6 with the durable counter of
  derivation indices (section 5) and the ledger beside it.
\<close>

record store =
  orders :: "payment_order list"
  next_index :: nat
  applied :: ledger

text \<open>Modelled from the spec: the store before the first purchase request.\<close>

definition empty_store :: store where
  "empty_store = \<lparr>orders = [], next_index = 0, applied = []\<rparr>"


subsection \<open>Settlement Effector\<close>

text \<open>
  Modelled from the spec: section 4.5. The effector "takes an order guaranteed (by
  caller) to be confirmed; checks settlement_applied; if false, atomically applies the
  effect and sets settlement_applied=true, confirmed_at=now; if true, no-op". The whole
  check-and-set is one function application; the effect is the new ledger entry.
\<close>

definition settlement_effector ::
  "nat \<Rightarrow> payment_order \<times> ledger \<Rightarrow> payment_order \<times> ledger" where
  "settlement_effector now ol =
     (case ol of (ord, l) \<Rightarrow>
        if po_settlement_applied ord then (ord, l)
        else (ord\<lparr>po_settlement_applied := True, po_confirmed_at := Some now\<rparr>,
              l @ [(po_owner_id ord, po_plan ord)]))"


subsection \<open>Reconciler, Expiry Sweeper, cancellation\<close>

text \<open>
  Modelled from the spec: the guard of the first row of the table in section 4.2,
  "amount \<ge> expected_amount \<times> (1 - tolerance)".
\<close>

definition satisfies :: "config \<Rightarrow> payment_order \<Rightarrow> transfer \<Rightarrow> bool" where
  "satisfies cfg ord tr = (po_expected_amount ord * (1 - tolerance cfg) \<le> amount tr)"

text \<open>
  Modelled from the spec: the algorithm per order of section 4.4, on the transfers the
  oracle lists for the order's address. A pending order that is not expired becomes paid
  on the first transfer of a sufficient amount; a paid order whose recorded transaction
  has reached the depth becomes confirmed and the Settlement Effector is invoked; every
  other case is a no-op. The transitions to \<open>Failed\<close>, for which section 4.4 gives no
  algorithm, are not taken.
\<close>

definition reconcile ::
  "config \<Rightarrow> nat \<Rightarrow> transfer list \<Rightarrow> payment_order \<times> ledger \<Rightarrow> payment_order \<times> ledger" where
  "reconcile cfg now ts ol =
     (case ol of (ord, l) \<Rightarrow>
        (case po_status ord of
           Pending \<Rightarrow>
             if now < po_expires_at ord then
               (case find (satisfies cfg ord) ts of
                  None \<Rightarrow> (ord, l)
                | Some tr \<Rightarrow>
                    (ord\<lparr>po_status := Paid, po_tx_reference := Some (tx_reference tr),
                         po_observed_amount := amount tr\<rparr>, l))
             else (ord, l)
         | Paid \<Rightarrow>
             (case po_tx_reference ord of
                None \<Rightarrow> (ord, l)
              | Some r \<Rightarrow>
                  (case find (\<lambda>tr. tx_reference tr = r) ts of
                     None \<Rightarrow> (ord, l)
                   | Some tr \<Rightarrow>
                       if depth cfg \<le> confirmations tr
                       then settlement_effector now (ord\<lparr>po_status := Confirmed\<rparr>, l)
                       else (ord, l)))
         | Confirmed \<Rightarrow> (ord, l)
         | Expired \<Rightarrow> (ord, l)
         | Cancelled \<Rightarrow> (ord, l)
         | Failed \<Rightarrow> (ord, l)))"

text \<open>
  Modelled from the spec: the Expiry Sweeper of section 4.6 on one order: a pending
  order whose \<open>expires_at\<close> has passed becomes expired.
\<close>

definition expire :: "nat \<Rightarrow> payment_order \<Rightarrow> payment_order" where
  "expire now ord =
     (if po_status ord = Pending \<and> po_expires_at ord \<le> now
      then ord\<lparr>po_status := Expired\<rparr> else ord)"

text \<open>
  Modelled from the spec: the third row of the table in section 4.2: a user or an
  administrator cancels an order that is not yet paid.
\<close>

definition cancel :: "payment_order \<Rightarrow> payment_order" where
  "cancel ord = (if po_status ord = Pending then ord\<lparr>po_status := Cancelled\<rparr> else ord)"


subsection \<open>Order creation and the operations of the store\<close>

text \<open>
  Modelled from the spec: the failures of \<open>CreateOrder\<close> (section 6), and the refusal of
  an insert by the store's unique constraint on \<open>address\<close> (section 6, persisted state
  layout).
\<close>

datatype create_error = InvalidPlan | AllocationError | UniqueViolation

text \<open>
  Modelled from the spec: \<open>CreateOrder (owner_id, plan)\<close> of section 6 with the Address
  Allocator of section 4.1. The derivation from the published key is the parameter
  \<open>derive\<close> (\<open>None\<close> when it fails) and the plan catalog at the moment of the request the
  parameter \<open>catalog\<close>. The index comes from the atomically incremented counter; the
  order identifier is taken to be the index, which is unique; the order starts \<open>Pending\<close>
  with \<open>expires_at = created_at + fixed_ttl\<close>; the insert obeys the unique constraint on
  \<open>address\<close>.
\<close>

definition create_order ::
  "(nat \<Rightarrow> string option) \<Rightarrow> config \<Rightarrow> (string \<Rightarrow> rat option) \<Rightarrow> nat \<Rightarrow> nat \<Rightarrow> string \<Rightarrow>
   store \<Rightarrow> (create_error + payment_order) \<times> store" where
  "create_order derive cfg catalog now owner plan s =
     (case catalog plan of
        None \<Rightarrow> (Inl InvalidPlan, s)
      | Some price \<Rightarrow>
          (let i = next_index s; s1 = s\<lparr>next_index := Suc i\<rparr> in
           case derive i of
             None \<Rightarrow> (Inl AllocationError, s1)
           | Some a \<Rightarrow>
               if a \<in> set (map po_address (orders s1)) then (Inl UniqueViolation, s1)
               else
                 (let ord =
                    \<lparr>po_order_id = i, po_owner_id = owner, po_plan = plan,
                     po_derivation_index = i, po_address = a,
                     po_expected_amount = price, po_observed_amount = 0,
                     po_status = Pending, po_tx_reference = None,
                     po_created_at = now, po_expires_at = now + fixed_ttl cfg,
                     po_confirmed_at = None, po_settlement_applied = False\<rparr>
                  in (Inr ord, s1\<lparr>orders := orders s1 @ [ord]\<rparr>))))"

text \<open>
  Modelled from the spec: a write to the one order with a given identifier, threading
  the ledger through (section 5: every state of an order lives in the store).
\<close>

fun update_order ::
  "nat \<Rightarrow> (payment_order \<times> ledger \<Rightarrow> payment_order \<times> ledger) \<Rightarrow>
   payment_order list \<Rightarrow> ledger \<Rightarrow> payment_order list \<times> ledger" where
  "update_order oid f [] l = ([], l)"
| "update_order oid f (ord # os) l =
     (if po_order_id ord = oid
      then (case f (ord, l) of (ord', l') \<Rightarrow> (ord' # os, l'))
      else (case update_order oid f os l of (os', l') \<Rightarrow> (ord # os', l')))"

text \<open>
  Modelled from the spec: what the workers of section 5 and the boundary operations of
  section 6 do to the store: a purchase request, one Reconciler pass for one order (from
  the sweep or from \<open>RefreshOrder\<close>), one run of the Settlement Effector, one scan of the
  Expiry Sweeper, a cancellation.
\<close>

datatype store_op =
    Create "string \<Rightarrow> rat option" nat nat string
  | Reconcile nat nat "transfer list"
  | Settle nat nat
  | Sweep nat
  | Cancel nat

text \<open>
  Modelled from the spec: the effect of one such operation on the store. A purchase
  request that fails leaves no order behind; the other operations write to the orders
  they name and to no other.
\<close>

fun apply_op :: "(nat \<Rightarrow> string option) \<Rightarrow> config \<Rightarrow> store_op \<Rightarrow> store \<Rightarrow> store" where
  "apply_op derive cfg (Create catalog now owner plan) s =
     snd (create_order derive cfg catalog now owner plan s)"
| "apply_op derive cfg (Reconcile now oid ts) s =
     (case update_order oid (reconcile cfg now ts) (orders s) (applied s) of
        (os, l) \<Rightarrow> s\<lparr>orders := os, applied := l\<rparr>)"
| "apply_op derive cfg (Settle now oid) s =
     (case update_order oid (settlement_effector now) (orders s) (applied s) of
        (os, l) \<Rightarrow> s\<lparr>orders := os, applied := l\<rparr>)"
| "apply_op derive cfg (Sweep now) s = s\<lparr>orders := map (expire now) (orders s)\<rparr>"
| "apply_op derive cfg (Cancel oid) s =
     (case update_order oid (\<lambda>(ord, l). (cancel ord, l)) (orders s) (applied s) of
        (os, l) \<Rightarrow> s\<lparr>orders := os, applied := l\<rparr>)"

text \<open>Modelled from the spec: a history of the store, one operation after the other.\<close>

definition apply_ops ::
  "(nat \<Rightarrow> string option) \<Rightarrow> config \<Rightarrow> store_op list \<Rightarrow> store \<Rightarrow> store" where
  "apply_ops derive cfg ops s = fold (apply_op derive cfg) ops s"

text \<open>
  Modelled from the spec: every address in the store was derived from an index that the
  counter has already handed out (section 4.1: the address of an order is derived from
  its index).
\<close>

definition derived_inv :: "(nat \<Rightarrow> string option) \<Rightarrow> store \<Rightarrow> bool" where
  "derived_inv derive s =
     (\<forall>ord \<in> set (orders s). \<exists>i < next_index s. derive i = Some (po_address ord))"


section \<open>Concrete inputs\<close>

text \<open>
  An order as the server sends it after a purchase, and the page after the purchase of
  the monthly plan that returned it, in a browser whose next timer handle is 1. The
  translation function returns its key.
\<close>

definition example_order :: usdt_order where
  "example_order =
     \<lparr>order_id = Some ''42'', status = Some ''pending'', address = Some ''TXYZ'',
      amount_usdt = Some ''19.9'', chain = Some ''TRC20'', expires_at = None\<rparr>"

definition example_page :: page where
  "example_page =
     buy (\<lambda>k. k) ''monthly''
       (Resolved (Some \<lparr>code = 1, msg = None, data = Some example_order\<rparr>)) (initial 1)"


text \<open>The same order once the server reports it expired, and the page that shows it.\<close>

definition expired_order :: usdt_order where
  "expired_order = example_order\<lparr>status := Some ''expired''\<rparr>"

definition expired_page :: page where
  "expired_page = example_page\<lparr>usdtOrder := Some expired_order\<rparr>"


text \<open>
  For the engine: a derivation that gives a different address for every index, a
  configuration, a catalog with the prices of the client's default table, the same
  catalog once the monthly price has been raised, and the first order of the monthly
  plan with the store that holds it.
\<close>

definition example_derive :: "nat \<Rightarrow> string option" where
  "example_derive i = Some (replicate (Suc i) CHR ''T'')"

definition example_config :: config where
  "example_config = \<lparr>tolerance = 1 / 100, depth = 1, fixed_ttl = 1800\<rparr>"

definition example_catalog :: "string \<Rightarrow> rat option" where
  "example_catalog p =
     (if p = ''monthly'' then Some (199 / 10)
      else if p = ''yearly'' then Some 199
      else if p = ''lifetime'' then Some 499
      else None)"

definition raised_catalog :: "string \<Rightarrow> rat option" where
  "raised_catalog p = (if p = ''monthly'' then Some (299 / 10) else example_catalog p)"

definition example_payment_order :: payment_order where
  "example_payment_order =
     \<lparr>po_order_id = 0, po_owner_id = 7, po_plan = ''monthly'',
      po_derivation_index = 0, po_address = ''T'',
      po_expected_amount = 199 / 10, po_observed_amount = 0,
      po_status = Pending, po_tx_reference = None,
      po_created_at = 0, po_expires_at = 1800,
      po_confirmed_at = None, po_settlement_applied = False\<rparr>"

definition example_store :: store where
  "example_store = \<lparr>orders = [example_payment_order], next_index = 1, applied = []\<rparr>"


section \<open>Properties of the billing page\<close>

subsection \<open>The timer invariant\<close>

lemma stop_inv: "polling_inv w \<Longrightarrow> polling_inv (stopUsdtPolling w)"
  by (auto simp: polling_inv_def stopUsdtPolling_def split: option.splits)

lemma stop_clears:
  "polling_inv w \<Longrightarrow>
   usdtPollingTimer (stopUsdtPolling w) = None \<and> intervals (stopUsdtPolling w) = []"
  by (auto simp: polling_inv_def stopUsdtPolling_def split: option.splits)

lemma start_inv: "polling_inv w \<Longrightarrow> polling_inv (startUsdtPolling w)"
  by (auto simp: polling_inv_def startUsdtPolling_def stopUsdtPolling_def Let_def
      split: option.splits)

lemma start_fresh:
  "polling_inv w \<Longrightarrow>
   usdtPollingTimer (startUsdtPolling w) = Some (next_handle w) \<and>
   intervals (startUsdtPolling w) = [(next_handle w, 5000)] \<and>
   next_handle (startUsdtPolling w) = Suc (next_handle w)"
  by (auto simp: polling_inv_def startUsdtPolling_def stopUsdtPolling_def Let_def
      split: option.splits)

lemma polling_inv_cong:
  "polling_inv w \<Longrightarrow>
   usdtPollingTimer w' = usdtPollingTimer w \<and> intervals w' = intervals w \<and>
   next_handle w' = next_handle w \<Longrightarrow> polling_inv w'"
  by (auto simp: polling_inv_def split: option.splits)

lemma load_begin_timer:
  "usdtPollingTimer (load_begin w) = usdtPollingTimer w \<and>
   intervals (load_begin w) = intervals w \<and>
   next_handle (load_begin w) = next_handle w"
  by (simp add: load_begin_def)

lemma load_resume_timer:
  "usdtPollingTimer (load_resume lo w) = usdtPollingTimer w \<and>
   intervals (load_resume lo w) = intervals w \<and>
   next_handle (load_resume lo w) = next_handle w"
  by (simp add: load_resume_def Let_def split: option.splits)

lemma buy_begin_timer:
  "usdtPollingTimer (buy_begin p w) = usdtPollingTimer w \<and>
   intervals (buy_begin p w) = intervals w \<and>
   next_handle (buy_begin p w) = next_handle w"
  by (simp add: buy_begin_def)

lemma refresh_begin_timer:
  "usdtPollingTimer (refresh_begin w) = usdtPollingTimer w \<and>
   intervals (refresh_begin w) = intervals w \<and>
   next_handle (refresh_begin w) = next_handle w"
  by (simp add: refresh_begin_def split: option.splits)

lemma refresh_resume_timer:
  "usdtPollingTimer (refresh_resume t out w) = usdtPollingTimer w \<and>
   intervals (refresh_resume t out w) = intervals w \<and>
   next_handle (refresh_resume t out w) = next_handle w"
  by (simp add: refresh_resume_def load_begin_def Let_def split: option.splits)

lemma buy_resume_failed:
  "succeeded out = None \<Longrightarrow>
   usdtPollingTimer (buy_resume t out w) = usdtPollingTimer w \<and>
   intervals (buy_resume t out w) = intervals w \<and>
   next_handle (buy_resume t out w) = next_handle w \<and>
   usdtOrder (buy_resume t out w) = usdtOrder w \<and>
   usdtModalVisible (buy_resume t out w) = usdtModalVisible w"
  by (simp add: buy_resume_def)

lemma buy_resume_succeeded:
  assumes "polling_inv w" and "succeeded out = Some d"
  shows "usdtOrder (buy_resume t out w) = Some d \<and>
         usdtModalVisible (buy_resume t out w) \<and>
         usdtPollingTimer (buy_resume t out w) = Some (next_handle w) \<and>
         intervals (buy_resume t out w) = [(next_handle w, 5000)] \<and>
         next_handle (buy_resume t out w) = Suc (next_handle w)"
proof -
  let ?w1 = "w\<lparr>usdtOrder := Some d, usdtModalVisible := True\<rparr>"
  have "polling_inv ?w1"
    using assms(1) by (auto simp: polling_inv_def split: option.splits)
  then have "usdtPollingTimer (startUsdtPolling ?w1) = Some (next_handle ?w1) \<and>
             intervals (startUsdtPolling ?w1) = [(next_handle ?w1, 5000)] \<and>
             next_handle (startUsdtPolling ?w1) = Suc (next_handle ?w1)"
    by (rule start_fresh)
  moreover have "usdtOrder (startUsdtPolling ?w1) = Some d \<and>
                 usdtModalVisible (startUsdtPolling ?w1)"
    by (simp add: startUsdtPolling_def stopUsdtPolling_def Let_def split: option.splits)
  ultimately show ?thesis using assms(2) by (simp add: buy_resume_def)
qed

lemma buy_resume_inv:
  assumes "polling_inv w"
  shows "polling_inv (buy_resume t out w)"
proof (cases "succeeded out")
  case None
  from assms buy_resume_failed [OF None, of t w] show ?thesis
    by (auto intro: polling_inv_cong)
next
  case (Some d)
  from buy_resume_succeeded [OF assms Some, of t] assms show ?thesis
    by (auto simp: polling_inv_def)
qed

lemma refresh_finish_inv:
  assumes "polling_inv w"
  shows "polling_inv (refresh_finish lo w)"
proof -
  have "polling_inv (load_resume lo w)"
    using assms by (rule polling_inv_cong) (rule load_resume_timer)
  then have "polling_inv (stopUsdtPolling (load_resume lo w))"
    by (rule stop_inv)
  then show ?thesis
    by (auto simp: refresh_finish_def polling_inv_def split: option.splits)
qed

lemma close_inv:
  assumes "polling_inv w"
  shows "polling_inv (closeUsdtModal w)"
proof -
  have "polling_inv (w\<lparr>usdtModalVisible := False\<rparr>)"
    using assms by (auto simp: polling_inv_def split: option.splits)
  then show ?thesis
    unfolding closeUsdtModal_def by (rule stop_inv)
qed

lemma step_inv:
  assumes "polling_inv w"
  shows "polling_inv (step t e w)"
proof (cases e)
  case Created
  with assms show ?thesis by (auto intro: polling_inv_cong [OF _ load_begin_timer])
next
  case (Plans_loaded lo)
  with assms show ?thesis by (auto intro: polling_inv_cong [OF _ load_resume_timer])
next
  case (Buy_clicked p)
  with assms show ?thesis by (auto intro: polling_inv_cong [OF _ buy_begin_timer])
next
  case (Order_created out)
  with assms show ?thesis by (simp add: buy_resume_inv)
next
  case Refresh_clicked
  with assms show ?thesis by (auto intro: polling_inv_cong [OF _ refresh_begin_timer])
next
  case (Interval_fired h)
  with assms show ?thesis by (auto intro: polling_inv_cong [OF _ refresh_begin_timer])
next
  case (Order_refreshed out)
  with assms show ?thesis by (auto intro: polling_inv_cong [OF _ refresh_resume_timer])
next
  case (Refresh_plans_loaded lo)
  with assms show ?thesis by (simp add: refresh_finish_inv)
next
  case Modal_closed
  with assms show ?thesis by (simp add: close_inv)
next
  case Destroyed
  with assms show ?thesis by (simp add: beforeDestroy_def stop_inv)
qed

lemma run_inv: "polling_inv w \<Longrightarrow> polling_inv (run t es w)"
  unfolding run_def by (induction es arbitrary: w) (simp_all add: step_inv)

lemma initial_inv: "0 < n \<Longrightarrow> polling_inv (initial n)"
  by (simp add: polling_inv_def initial_def)

lemma inv_one_timer:
  "polling_inv w \<Longrightarrow>
   length (intervals w) \<le> 1 \<and> ((usdtPollingTimer w \<noteq> None) = (length (intervals w) = 1))"
  by (auto simp: polling_inv_def split: option.splits)

lemma step_stops:
  assumes "usdtPollingTimer w = Some h" and "usdtPollingTimer (step t e w) = None"
  shows "e = Modal_closed \<or> e = Destroyed \<or> (\<exists>lo. e = Refresh_plans_loaded lo)"
proof (cases e)
  case Created
  with assms show ?thesis by (simp add: load_begin_timer)
next
  case (Plans_loaded lo)
  with assms show ?thesis by (simp add: load_resume_timer)
next
  case (Buy_clicked p)
  with assms show ?thesis by (simp add: buy_begin_timer)
next
  case (Order_created out)
  with assms show ?thesis
    by (auto simp: buy_resume_def startUsdtPolling_def Let_def split: option.splits)
next
  case Refresh_clicked
  with assms show ?thesis by (simp add: refresh_begin_timer)
next
  case (Interval_fired k)
  with assms show ?thesis by (auto simp: refresh_begin_timer split: if_splits)
next
  case (Order_refreshed out)
  with assms show ?thesis by (simp add: refresh_resume_timer)
qed simp_all


subsection \<open>One call of \<open>refreshUsdtOrder\<close>\<close>

lemma status_string_simps:
  "status_string None = []"
  "status_string (Some d) = (case status d of None \<Rightarrow> [] | Some s \<Rightarrow> s)"
  by (auto simp: status_string_def or_else_def split: option.splits)

lemma refresh_order:
  "usdtOrder (refreshUsdtOrder t out lo w) =
     (if refresh_skips w then usdtOrder w
      else case succeeded out of None \<Rightarrow> usdtOrder w | Some d \<Rightarrow> Some d)"
  by (auto simp: refreshUsdtOrder_def refresh_skips_def truthy_def
      refresh_begin_def refresh_resume_def refresh_finish_def load_begin_def load_resume_def
      stopUsdtPolling_def confirms_def Let_def split: option.splits)

lemma refresh_sent:
  "usdtOrder w = Some d \<Longrightarrow> order_id d = Some oid \<Longrightarrow> oid \<noteq> [] \<Longrightarrow>
   sent (refreshUsdtOrder t out lo w) =
     sent w @ [getUsdtOrder oid (Some True)] @
     (if confirms out then [getMembershipPlans] else [])"
  by (auto simp: refreshUsdtOrder_def refresh_skips_def truthy_def
      refresh_begin_def refresh_resume_def refresh_finish_def load_begin_def load_resume_def
      stopUsdtPolling_def confirms_def Let_def split: option.splits)

lemma refresh_unconfirmed:
  "\<not> confirms out \<Longrightarrow>
   usdtPollingTimer (refreshUsdtOrder t out lo w) = usdtPollingTimer w \<and>
   intervals (refreshUsdtOrder t out lo w) = intervals w \<and>
   next_handle (refreshUsdtOrder t out lo w) = next_handle w"
  by (simp add: refreshUsdtOrder_def refresh_resume_timer refresh_begin_timer)

lemma refresh_failed:
  "succeeded out = None \<Longrightarrow>
   toasts (refreshUsdtOrder t out lo w) = toasts w \<and>
   usdtModalVisible (refreshUsdtOrder t out lo w) = usdtModalVisible w \<and>
   plans (refreshUsdtOrder t out lo w) = plans w \<and>
   billing (refreshUsdtOrder t out lo w) = billing w"
  by (auto simp: refreshUsdtOrder_def refresh_skips_def
      refresh_begin_def refresh_resume_def confirms_def split: option.splits)

lemma refresh_confirmed:
  assumes "polling_inv w" and "confirms out" and "\<not> refresh_skips w"
  shows "usdtPollingTimer (refreshUsdtOrder t out lo w) = None \<and>
         intervals (refreshUsdtOrder t out lo w) = []"
proof -
  let ?w1 = "load_resume lo (refresh_resume t out (refresh_begin w))"
  have "polling_inv ?w1"
    using assms(1)
    by (auto intro!: polling_inv_cong [where w = w]
        simp: load_resume_timer refresh_resume_timer refresh_begin_timer)
  then have "usdtPollingTimer (stopUsdtPolling ?w1) = None \<and>
             intervals (stopUsdtPolling ?w1) = []"
    by (rule stop_clears)
  then show ?thesis
    using assms(2,3) by (simp add: refreshUsdtOrder_def refresh_finish_def)
qed

lemma poll_unconfirmed:
  "\<forall>out \<in> set outs. \<not> confirms out \<Longrightarrow>
   usdtPollingTimer (poll t outs lo w) = usdtPollingTimer w \<and>
   intervals (poll t outs lo w) = intervals w"
  by (induction outs arbitrary: w) (simp_all add: refresh_unconfirmed)

lemma refresh_same_order:
  assumes "usdtOrder w = Some d" and "order_id d = Some oid" and "oid \<noteq> []"
    and "status d \<noteq> Some ''confirmed''"
  shows "usdtOrder (refreshUsdtOrder t (Resolved (Some \<lparr>code = 1, msg = m, data = Some d\<rparr>)) lo w)
           = Some d \<and>
         sent (refreshUsdtOrder t (Resolved (Some \<lparr>code = 1, msg = m, data = Some d\<rparr>)) lo w)
           = sent w @ [getUsdtOrder oid (Some True)]"
  using assms
  by (simp add: refreshUsdtOrder_def refresh_skips_def truthy_def refresh_begin_def
      refresh_resume_def confirms_def succeeded_def)

lemma poll_same_order:
  assumes "order_id d = Some oid" and "oid \<noteq> []" and "status d \<noteq> Some ''confirmed''"
  shows "usdtOrder w = Some d \<Longrightarrow> intervals w \<noteq> [] \<Longrightarrow>
         sent (poll t (replicate n (Resolved (Some \<lparr>code = 1, msg = m, data = Some d\<rparr>))) lo w)
           = sent w @ replicate n (getUsdtOrder oid (Some True))"
proof (induction n arbitrary: w)
  case 0
  then show ?case by simp
next
  case (Suc n)
  let ?out = "Resolved (Some \<lparr>code = 1, msg = m, data = Some d\<rparr>)"
  let ?w1 = "refreshUsdtOrder t ?out lo w"
  have 1: "usdtOrder ?w1 = Some d \<and> sent ?w1 = sent w @ [getUsdtOrder oid (Some True)]"
    using Suc.prems(1) assms by (rule refresh_same_order)
  have "\<not> confirms ?out"
    using assms(3) by (simp add: confirms_def succeeded_def)
  then have 2: "intervals ?w1 = intervals w"
    by (simp add: refresh_unconfirmed)
  have "sent (poll t (replicate n ?out) lo ?w1) =
          sent ?w1 @ replicate n (getUsdtOrder oid (Some True))"
    using 1 2 Suc.prems(2) by (intro Suc.IH) simp_all
  then show ?case
    using 1 Suc.prems(2) by (simp add: replicate_append_same)
qed



subsection \<open>The status label and colour\<close>

lemma statusText_six:
  "statusText t (Some (d\<lparr>status := Some (status_name st)\<rparr>)) =
     Text (or_else (Some (t (''billing.usdt.status.'' @ status_name st))) (status_name st))"
  by (cases st)
     (simp_all add: statusText_def status_string_simps status_map_def or_else_def)

lemma statusText_other:
  "s \<notin> set (map fst (status_map t)) \<Longrightarrow> s \<notin> set object_prototype_keys \<Longrightarrow>
   statusText t (Some (d\<lparr>status := Some s\<rparr>)) = Text (if s = [] then ''--'' else s)"
  by (simp add: statusText_def status_string_simps status_map_def or_else_def)

lemma statusColor_six:
  "statusColor (Some (d\<lparr>status := Some (status_name st)\<rparr>)) =
     (case st of Pending \<Rightarrow> ''orange'' | Paid \<Rightarrow> ''blue'' | Confirmed \<Rightarrow> ''green''
      | Expired \<Rightarrow> ''red'' | Cancelled \<Rightarrow> ''red'' | Failed \<Rightarrow> ''red'')"
  by (cases st) (simp_all add: statusColor_def status_string_simps)


section \<open>Properties of the payment order engine\<close>

lemma settlement_effector_idem:
  "settlement_effector now' (settlement_effector now ol) = settlement_effector now ol"
  by (cases ol) (simp add: settlement_effector_def)

lemma fold_settlement_effector:
  "fold settlement_effector nows (settlement_effector now ol) = settlement_effector now ol"
  by (induction nows) (simp_all add: settlement_effector_idem)

lemma update_order_map:
  assumes "\<And>ord l. g (fst (f (ord, l))) = g ord"
  shows "map g (fst (update_order oid f os l)) = map g os"
proof (induction os)
  case Nil
  then show ?case by simp
next
  case (Cons ord os)
  show ?case
  proof (cases "po_order_id ord = oid")
    case True
    obtain ord' l' where f: "f (ord, l) = (ord', l')"
      by (cases "f (ord, l)")
    have "g ord' = g ord"
      using assms [of ord l] f by simp
    then show ?thesis
      using True f by simp
  next
    case False
    then show ?thesis
      using Cons.IH by (auto split: prod.splits)
  qed
qed


lemma reconcile_address: "po_address (fst (reconcile cfg now ts (ord, l))) = po_address ord"
  by (simp add: reconcile_def settlement_effector_def split: order_status.splits option.splits)

lemma reconcile_expected:
  "po_expected_amount (fst (reconcile cfg now ts (ord, l))) = po_expected_amount ord"
  by (simp add: reconcile_def settlement_effector_def split: order_status.splits option.splits)

lemma settle_address: "po_address (fst (settlement_effector now (ord, l))) = po_address ord"
  by (simp add: settlement_effector_def)

lemma settle_expected:
  "po_expected_amount (fst (settlement_effector now (ord, l))) = po_expected_amount ord"
  by (simp add: settlement_effector_def)

lemma expire_fields:
  "po_address (expire now ord) = po_address ord"
  "po_expected_amount (expire now ord) = po_expected_amount ord"
  by (simp_all add: expire_def)

lemma cancel_fields:
  "po_address (cancel ord) = po_address ord"
  "po_expected_amount (cancel ord) = po_expected_amount ord"
  by (simp_all add: cancel_def)

lemma create_order_orders:
  "orders (snd (create_order derive cfg catalog now owner plan s)) = orders s \<or>
   (\<exists>ord. fst (create_order derive cfg catalog now owner plan s) = Inr ord \<and>
      orders (snd (create_order derive cfg catalog now owner plan s)) = orders s @ [ord] \<and>
      po_address ord \<notin> set (map po_address (orders s)))"
  by (auto simp: create_order_def Let_def split: option.splits)

lemma create_order_Inr:
  assumes "fst (create_order derive cfg catalog now owner plan s) = Inr ord"
  shows "catalog plan = Some (po_expected_amount ord) \<and> po_plan ord = plan \<and>
         po_status ord = Pending \<and> po_owner_id ord = owner \<and>
         po_expires_at ord = po_created_at ord + fixed_ttl cfg \<and>
         derive (next_index s) = Some (po_address ord) \<and>
         orders (snd (create_order derive cfg catalog now owner plan s)) = orders s @ [ord]"
  using assms
  by (auto simp: create_order_def Let_def split: option.splits if_splits)

lemma apply_op_addresses:
  "map po_address (orders (apply_op derive cfg op s)) = map po_address (orders s) \<or>
   (\<exists>a. a \<notin> set (map po_address (orders s)) \<and>
      map po_address (orders (apply_op derive cfg op s)) = map po_address (orders s) @ [a])"
proof (cases op)
  case (Create catalog now owner plan)
  show ?thesis
    using create_order_orders [of derive cfg catalog now owner plan s] Create by auto
next
  case (Reconcile now oid ts)
  have "map po_address (fst (update_order oid (reconcile cfg now ts) (orders s) (applied s)))
        = map po_address (orders s)"
    by (rule update_order_map) (rule reconcile_address)
  then show ?thesis using Reconcile by (auto split: prod.splits)
next
  case (Settle now oid)
  have "map po_address (fst (update_order oid (settlement_effector now) (orders s) (applied s)))
        = map po_address (orders s)"
    by (rule update_order_map) (rule settle_address)
  then show ?thesis using Settle by (auto split: prod.splits)
next
  case (Sweep now)
  then show ?thesis by (simp add: expire_fields comp_def)
next
  case (Cancel oid)
  have "map po_address (fst (update_order oid (\<lambda>(ord, l). (cancel ord, l)) (orders s) (applied s)))
        = map po_address (orders s)"
    by (rule update_order_map) (simp add: cancel_fields)
  then show ?thesis using Cancel by (auto split: prod.splits)
qed

lemma apply_op_expected:
  "\<exists>new. map po_expected_amount (orders (apply_op derive cfg op s)) =
     map po_expected_amount (orders s) @ new"
proof (cases op)
  case (Create catalog now owner plan)
  show ?thesis
    using create_order_orders [of derive cfg catalog now owner plan s] Create by auto
next
  case (Reconcile now oid ts)
  have "map po_expected_amount
          (fst (update_order oid (reconcile cfg now ts) (orders s) (applied s)))
        = map po_expected_amount (orders s)"
    by (rule update_order_map) (rule reconcile_expected)
  then show ?thesis using Reconcile by (auto split: prod.splits)
next
  case (Settle now oid)
  have "map po_expected_amount
          (fst (update_order oid (settlement_effector now) (orders s) (applied s)))
        = map po_expected_amount (orders s)"
    by (rule update_order_map) (rule settle_expected)
  then show ?thesis using Settle by (auto split: prod.splits)
next
  case (Sweep now)
  then show ?thesis by (simp add: expire_fields comp_def)
next
  case (Cancel oid)
  have "map po_expected_amount
          (fst (update_order oid (\<lambda>(ord, l). (cancel ord, l)) (orders s) (applied s)))
        = map po_expected_amount (orders s)"
    by (rule update_order_map) (simp add: cancel_fields)
  then show ?thesis using Cancel by (auto split: prod.splits)
qed

lemma apply_op_distinct:
  "distinct (map po_address (orders s)) \<Longrightarrow>
   distinct (map po_address (orders (apply_op derive cfg op s)))"
  using apply_op_addresses [of derive cfg op s] by auto

lemma apply_ops_distinct:
  "distinct (map po_address (orders s)) \<Longrightarrow>
   distinct (map po_address (orders (apply_ops derive cfg ops s)))"
  unfolding apply_ops_def
  by (induction ops arbitrary: s) (simp_all add: apply_op_distinct)

lemma fold_prefix:
  assumes "\<And>op s. \<exists>new. g (f op s) = g s @ new"
  shows "\<exists>new. g (fold f ops s) = g s @ new"
proof (induction ops arbitrary: s)
  case Nil
  then show ?case by simp
next
  case (Cons op ops)
  obtain m1 where 1: "g (f op s) = g s @ m1"
    using assms by blast
  obtain m2 where "g (fold f ops (f op s)) = g (f op s) @ m2"
    using Cons.IH by blast
  then show ?case using 1 by simp
qed

lemma apply_op_addresses_prefix:
  "\<exists>new. map po_address (orders (apply_op derive cfg op s)) =
     map po_address (orders s) @ new"
proof -
  from apply_op_addresses [of derive cfg op s]
  consider "map po_address (orders (apply_op derive cfg op s)) = map po_address (orders s) @ []"
    | a where "map po_address (orders (apply_op derive cfg op s)) = map po_address (orders s) @ [a]"
    by auto
  then show ?thesis by cases blast+
qed

lemma apply_ops_addresses_prefix:
  "\<exists>new. map po_address (orders (apply_ops derive cfg ops s)) =
     map po_address (orders s) @ new"
  unfolding apply_ops_def
  by (rule fold_prefix [where g = "\<lambda>s. map po_address (orders s)"])
     (rule apply_op_addresses_prefix)

lemma apply_ops_expected_prefix:
  "\<exists>new. map po_expected_amount (orders (apply_ops derive cfg ops s)) =
     map po_expected_amount (orders s) @ new"
  unfolding apply_ops_def
  by (rule fold_prefix [where g = "\<lambda>s. map po_expected_amount (orders s)"])
     (rule apply_op_expected)

lemma prefix_nth:
  assumes "map g ys = map g xs @ new" and "k < length xs"
  shows "k < length ys \<and> g (ys ! k) = g (xs ! k)"
proof -
  have len: "length ys = length xs + length new"
    using assms(1) by (metis length_append length_map)
  then have k: "k < length ys" using assms(2) by simp
  have "map g ys ! k = (map g xs @ new) ! k"
    using assms(1) by simp
  then show ?thesis
    using k assms(2) by (simp add: nth_append)
qed


text \<open>
  With a derivation that gives different addresses for different indices (section 4.1),
  the unique constraint never refuses a purchase request.
\<close>

lemma derived_inv_alt:
  "derived_inv derive s =
     (\<forall>a \<in> set (map po_address (orders s)). \<exists>i < next_index s. derive i = Some a)"
  by (auto simp: derived_inv_def)

lemma create_order_derived:
  assumes "derived_inv derive s"
  shows "derived_inv derive (snd (create_order derive cfg catalog now owner plan s))"
  using assms
  by (auto simp: derived_inv_def create_order_def Let_def less_Suc_eq split: option.splits)

lemma apply_op_derived:
  assumes "derived_inv derive s"
  shows "derived_inv derive (apply_op derive cfg op s)"
proof (cases op)
  case (Create catalog now owner plan)
  then show ?thesis using create_order_derived [OF assms] by simp
next
  case other: (Reconcile now oid ts)
  have a: "map po_address (orders (apply_op derive cfg op s)) = map po_address (orders s)"
    using other update_order_map [of po_address "reconcile cfg now ts" oid "orders s" "applied s"]
    by (auto simp: reconcile_address split: prod.splits)
  have n: "next_index (apply_op derive cfg op s) = next_index s"
    using other by (auto split: prod.splits)
  show ?thesis using assms unfolding derived_inv_alt a n .
next
  case other: (Settle now oid)
  have a: "map po_address (orders (apply_op derive cfg op s)) = map po_address (orders s)"
    using other update_order_map [of po_address "settlement_effector now" oid "orders s" "applied s"]
    by (auto simp: settle_address split: prod.splits)
  have n: "next_index (apply_op derive cfg op s) = next_index s"
    using other by (auto split: prod.splits)
  show ?thesis using assms unfolding derived_inv_alt a n .
next
  case other: (Sweep now)
  have a: "map po_address (orders (apply_op derive cfg op s)) = map po_address (orders s)"
    using other by (simp add: expire_fields comp_def)
  have n: "next_index (apply_op derive cfg op s) = next_index s"
    using other by simp
  show ?thesis using assms unfolding derived_inv_alt a n .
next
  case other: (Cancel oid)
  have a: "map po_address (orders (apply_op derive cfg op s)) = map po_address (orders s)"
    using other
      update_order_map [of po_address "\<lambda>(ord, l). (cancel ord, l)" oid "orders s" "applied s"]
    by (auto simp: cancel_fields split: prod.splits)
  have n: "next_index (apply_op derive cfg op s) = next_index s"
    using other by (auto split: prod.splits)
  show ?thesis using assms unfolding derived_inv_alt a n .
qed

lemma apply_ops_derived:
  "derived_inv derive s \<Longrightarrow> derived_inv derive (apply_ops derive cfg ops s)"
  unfolding apply_ops_def
  by (induction ops arbitrary: s) (simp_all add: apply_op_derived)

lemma injective_derivation_never_refused:
  assumes "inj derive"
  shows "fst (create_order derive cfg catalog now owner plan
            (apply_ops derive cfg ops empty_store)) \<noteq> Inl UniqueViolation"
proof -
  let ?s = "apply_ops derive cfg ops empty_store"
  have "derived_inv derive empty_store"
    by (simp add: derived_inv_def empty_store_def)
  then have inv: "derived_inv derive ?s"
    by (rule apply_ops_derived)
  have "a \<notin> set (map po_address (orders ?s))" if a: "derive (next_index ?s) = Some a" for a
  proof
    assume "a \<in> set (map po_address (orders ?s))"
    then obtain i where "i < next_index ?s" and "derive i = Some a"
      using inv unfolding derived_inv_alt by blast
    with a assms show False
      by (metis injD less_irrefl)
  qed
  then show ?thesis
    by (auto simp: create_order_def Let_def split: option.splits)
qed


section \<open>The claims\<close>

lemma example_page_eq:
  "usdtOrder example_page = Some example_order \<and>
   usdtPollingTimer example_page = Some 1 \<and>
   intervals example_page = [(1, 5000)] \<and>
   next_handle example_page = 2 \<and>
   toasts example_page = [] \<and>
   sent example_page = [createUsdtOrder ''monthly'']"
  by (simp add: example_page_def buy_def buy_begin_def buy_resume_def succeeded_def
      startUsdtPolling_def stopUsdtPolling_def initial_def Let_def)

lemma example_page_inv: "polling_inv example_page"
  by (simp add: polling_inv_def example_page_eq)

lemma expired_page_eq:
  "usdtOrder expired_page = Some expired_order \<and>
   usdtPollingTimer expired_page = Some 1 \<and>
   intervals expired_page = [(1, 5000)] \<and>
   next_handle expired_page = 2 \<and>
   sent expired_page = [createUsdtOrder ''monthly'']"
  by (simp add: expired_page_def example_page_eq)

lemma expired_order_eq:
  "order_id expired_order = Some ''42'' \<and> status expired_order = Some ''expired''"
  by (simp add: expired_order_def example_order_def)

lemma example_create:
  "create_order example_derive example_config example_catalog 0 7 ''monthly'' empty_store =
     (Inr example_payment_order, example_store)"
  by (simp add: create_order_def example_derive_def example_config_def example_catalog_def
      empty_store_def example_payment_order_def example_store_def Let_def)

text \<open>
  Claim C1. Running the Settlement Effector one or more times on the same order, at the
  times \<open>now # later\<close>, applies the account effect exactly once: if \<open>settlement_applied\<close>
  is false the first run sets it, sets \<open>confirmed_at\<close> to the time of that run and adds
  one entry to the ledger, and all the later runs change nothing; if it is true
  no run changes anything. A second run after any first run is a no-op. The effector
  does not look at the status, so this holds for every confirmed order.
\<close>

theorem settlement_exactly_once:
  "fold settlement_effector (now # later) (ord, l) =
     (if po_settlement_applied ord then (ord, l)
      else (ord\<lparr>po_settlement_applied := True, po_confirmed_at := Some now\<rparr>,
            l @ [(po_owner_id ord, po_plan ord)])) \<and>
   settlement_effector now' (settlement_effector now (ord, l)) =
     settlement_effector now (ord, l) \<and>
   length (snd (fold settlement_effector (now # later) (ord, l))) =
     length l + (if po_settlement_applied ord then 0 else 1)"
proof -
  have 1: "fold settlement_effector (now # later) (ord, l) = settlement_effector now (ord, l)"
    by (simp add: fold_settlement_effector)
  have 2: "settlement_effector now (ord, l) =
     (if po_settlement_applied ord then (ord, l)
      else (ord\<lparr>po_settlement_applied := True, po_confirmed_at := Some now\<rparr>,
            l @ [(po_owner_id ord, po_plan ord)]))"
    by (simp add: settlement_effector_def)
  have 3: "settlement_effector now' (settlement_effector now (ord, l)) =
     settlement_effector now (ord, l)"
    by (rule settlement_effector_idem)
  have 4: "length (snd (settlement_effector now (ord, l))) =
     length l + (if po_settlement_applied ord then 0 else 1)"
    by (simp add: 2)
  from 2 3 4 show ?thesis
    unfolding 1 by blast
qed

text \<open>
  Claim C2. In every store reached from the empty store by purchase requests, Reconciler
  passes, settlements, sweeps and cancellations, the addresses of the orders are pairwise
  different: two orders at different places of the store never have the same address,
  whatever their owners and plans. The insert of a new order obeys the unique constraint
  on \<open>address\<close>, so this holds for every derivation function, also one that repeats an
  address. The property is kept by every further sequence of operations from any store
  that has it, and the addresses of the orders a store holds stay what they are and stay
  in the store: later operations only add addresses behind them.
\<close>

theorem no_address_reuse:
  "distinct (map po_address (orders (apply_ops derive cfg ops empty_store))) \<and>
   (\<forall>i j. i < length (orders (apply_ops derive cfg ops empty_store)) \<and>
          j < length (orders (apply_ops derive cfg ops empty_store)) \<and> i \<noteq> j \<longrightarrow>
      po_address (orders (apply_ops derive cfg ops empty_store) ! i) \<noteq>
      po_address (orders (apply_ops derive cfg ops empty_store) ! j)) \<and>
   (distinct (map po_address (orders s)) \<longrightarrow>
      distinct (map po_address (orders (apply_ops derive cfg ops s)))) \<and>
   (\<exists>new. map po_address (orders (apply_ops derive cfg ops s)) =
      map po_address (orders s) @ new)"
proof -
  let ?os = "orders (apply_ops derive cfg ops empty_store)"
  have "distinct (map po_address (orders empty_store))"
    by (simp add: empty_store_def)
  then have 1: "distinct (map po_address ?os)"
    by (rule apply_ops_distinct)
  have 2: "po_address (?os ! i) \<noteq> po_address (?os ! j)"
    if "i < length ?os \<and> j < length ?os \<and> i \<noteq> j" for i j
  proof -
    from 1 have "\<forall>i < length (map po_address ?os). \<forall>j < length (map po_address ?os).
        i \<noteq> j \<longrightarrow> map po_address ?os ! i \<noteq> map po_address ?os ! j"
      by (simp only: distinct_conv_nth)
    with that have "map po_address ?os ! i \<noteq> map po_address ?os ! j"
      by simp
    with that show ?thesis by simp
  qed
  have 3: "distinct (map po_address (orders s)) \<Longrightarrow>
      distinct (map po_address (orders (apply_ops derive cfg ops s)))"
    by (rule apply_ops_distinct)
  from 1 2 3 apply_ops_addresses_prefix [of derive cfg ops s] show ?thesis
    by blast
qed

text \<open>
  Two purchases with a sweep in between give two orders with the addresses T and TT;
  with a derivation that always answers T, the second purchase is refused and the store
  keeps the one order.
\<close>

theorem no_address_reuse_witness:
  "orders (apply_ops example_derive example_config
      [Create example_catalog 0 7 ''monthly'', Sweep 5000, Create example_catalog 6000 8 ''yearly'']
      empty_store) =
     [example_payment_order\<lparr>po_status := Expired\<rparr>,
      \<lparr>po_order_id = 1, po_owner_id = 8, po_plan = ''yearly'',
       po_derivation_index = 1, po_address = ''TT'',
       po_expected_amount = 199, po_observed_amount = 0,
       po_status = Pending, po_tx_reference = None,
       po_created_at = 6000, po_expires_at = 7800,
       po_confirmed_at = None, po_settlement_applied = False\<rparr>] \<and>
   distinct (map po_address (orders (apply_ops example_derive example_config
      [Create example_catalog 0 7 ''monthly'', Sweep 5000, Create example_catalog 6000 8 ''yearly'']
      empty_store))) \<and>
   po_address (orders (apply_ops example_derive example_config
      [Create example_catalog 0 7 ''monthly'', Sweep 5000, Create example_catalog 6000 8 ''yearly'']
      empty_store) ! 0) \<noteq>
   po_address (orders (apply_ops example_derive example_config
      [Create example_catalog 0 7 ''monthly'', Sweep 5000, Create example_catalog 6000 8 ''yearly'']
      empty_store) ! 1) \<and>
   orders (apply_ops (\<lambda>i. Some ''T'') example_config
      [Create example_catalog 0 7 ''monthly'', Create example_catalog 6000 8 ''yearly'']
      empty_store) = [example_payment_order]"
proof -
  have 1: "orders (apply_ops example_derive example_config
      [Create example_catalog 0 7 ''monthly'', Sweep 5000, Create example_catalog 6000 8 ''yearly'']
      empty_store) =
     [example_payment_order\<lparr>po_status := Expired\<rparr>,
      \<lparr>po_order_id = 1, po_owner_id = 8, po_plan = ''yearly'',
       po_derivation_index = 1, po_address = ''TT'',
       po_expected_amount = 199, po_observed_amount = 0,
       po_status = Pending, po_tx_reference = None,
       po_created_at = 6000, po_expires_at = 7800,
       po_confirmed_at = None, po_settlement_applied = False\<rparr>]"
    by (simp add: apply_ops_def example_create)
       (simp add: example_store_def create_order_def example_derive_def example_config_def
        example_catalog_def example_payment_order_def expire_def Let_def)
  have 2: "orders (apply_ops (\<lambda>i. Some ''T'') example_config
      [Create example_catalog 0 7 ''monthly'', Create example_catalog 6000 8 ''yearly'']
      empty_store) = [example_payment_order]"
    by (simp add: apply_ops_def create_order_def example_config_def
        example_catalog_def example_payment_order_def empty_store_def Let_def)
  from no_address_reuse
    [of example_derive example_config
      "[Create example_catalog 0 7 ''monthly'', Sweep 5000, Create example_catalog 6000 8 ''yearly'']"
      empty_store]
  have 3: "distinct (map po_address (orders (apply_ops example_derive example_config
      [Create example_catalog 0 7 ''monthly'', Sweep 5000, Create example_catalog 6000 8 ''yearly'']
      empty_store)))"
    by blast
  have 4: "0 < length (orders (apply_ops example_derive example_config
      [Create example_catalog 0 7 ''monthly'', Sweep 5000, Create example_catalog 6000 8 ''yearly'']
      empty_store)) \<and>
    1 < length (orders (apply_ops example_derive example_config
      [Create example_catalog 0 7 ''monthly'', Sweep 5000, Create example_catalog 6000 8 ''yearly'']
      empty_store)) \<and> (0::nat) \<noteq> 1"
    unfolding 1 by simp
  from no_address_reuse
    [of example_derive example_config
      "[Create example_catalog 0 7 ''monthly'', Sweep 5000, Create example_catalog 6000 8 ''yearly'']"
      empty_store] 4
  have 5: "po_address (orders (apply_ops example_derive example_config
      [Create example_catalog 0 7 ''monthly'', Sweep 5000, Create example_catalog 6000 8 ''yearly'']
      empty_store) ! 0) \<noteq>
   po_address (orders (apply_ops example_derive example_config
      [Create example_catalog 0 7 ''monthly'', Sweep 5000, Create example_catalog 6000 8 ''yearly'']
      empty_store) ! 1)"
    by blast
  from 1 2 3 5 show ?thesis by blast
qed

text \<open>
  Claim C3. A call of \<open>refreshUsdtOrder\<close> whose request is rejected (an error or a
  timeout of the HTTP layer) leaves \<open>usdtOrder\<close> as it was. In general the order after
  the call is the data of the response when the call was made and the response was
  successful, and the order before the call otherwise; after an unsuccessful response
  the page shows no message, and the modal and the polling timer are as before.
\<close>

theorem refresh_failure_keeps_order:
  "usdtOrder (refreshUsdtOrder t (Rejected e) lo w) = usdtOrder w \<and>
   usdtOrder (refreshUsdtOrder t out lo w) =
     (if refresh_skips w then usdtOrder w
      else case succeeded out of None \<Rightarrow> usdtOrder w | Some d \<Rightarrow> Some d) \<and>
   (succeeded out = None \<longrightarrow>
      usdtOrder (refreshUsdtOrder t out lo w) = usdtOrder w \<and>
      toasts (refreshUsdtOrder t out lo w) = toasts w \<and>
      usdtModalVisible (refreshUsdtOrder t out lo w) = usdtModalVisible w \<and>
      usdtPollingTimer (refreshUsdtOrder t out lo w) = usdtPollingTimer w \<and>
      intervals (refreshUsdtOrder t out lo w) = intervals w)"
proof -
  have r: "succeeded (Rejected e :: usdt_order outcome) = None"
    by (simp add: succeeded_def)
  have 1: "usdtOrder (refreshUsdtOrder t (Rejected e) lo w) = usdtOrder w"
    by (simp add: refresh_order r)
  have 2: "succeeded out = None \<Longrightarrow> \<not> confirms out"
    by (simp add: confirms_def)
  show ?thesis
    using 1 2 refresh_unconfirmed [of out t lo w] refresh_failed [of out t lo w]
    by (simp add: refresh_order)
qed

text \<open>
  The server answers with an error envelope while the example order is on display: the
  order stays and no message appears.
\<close>

theorem refresh_failure_keeps_order_witness:
  "succeeded (Resolved (Some \<lparr>code = 0, msg = Some ''slow'', data = None\<rparr>) :: usdt_order outcome)
     = None \<and>
   usdtOrder (refreshUsdtOrder (\<lambda>k. k)
      (Resolved (Some \<lparr>code = 0, msg = Some ''slow'', data = None\<rparr>)) (Rejected None)
      example_page) = Some example_order \<and>
   toasts (refreshUsdtOrder (\<lambda>k. k)
      (Resolved (Some \<lparr>code = 0, msg = Some ''slow'', data = None\<rparr>)) (Rejected None)
      example_page) = []"
  using refresh_failure_keeps_order
    [of "\<lambda>k. k" None "Rejected None" example_page
      "Resolved (Some \<lparr>code = 0, msg = Some ''slow'', data = None\<rparr>)"]
  by (simp add: succeeded_def example_page_eq)

text \<open>
  The engine's half of the status claim: the status of an order has exactly the six
  values \<open>pending\<close>, \<open>paid\<close>, \<open>confirmed\<close>, \<open>expired\<close>, \<open>cancelled\<close>, \<open>failed\<close>; a
  created order is \<open>pending\<close>; the terminal states are exactly \<open>confirmed\<close>, \<open>expired\<close>,
  \<open>cancelled\<close> and \<open>failed\<close>; and the keys of the object literal of \<open>statusText\<close> are the
  names of these six.
\<close>

lemma order_status_machine:
  "(UNIV :: order_status set) = {Pending, Paid, Confirmed, Expired, Cancelled, Failed} \<and>
   map status_name [Pending, Paid, Confirmed, Expired, Cancelled, Failed] =
     [''pending'', ''paid'', ''confirmed'', ''expired'', ''cancelled'', ''failed''] \<and>
   (fst (create_order derive cfg catalog now owner plan s) = Inr ord \<longrightarrow>
      po_status ord = Pending) \<and>
   terminal st = (st \<in> {Confirmed, Expired, Cancelled, Failed}) \<and>
   map fst (status_map t) =
     map status_name [Pending, Paid, Confirmed, Expired, Cancelled, Failed]"
proof -
  have 1: "(UNIV :: order_status set) = {Pending, Paid, Confirmed, Expired, Cancelled, Failed}"
    using order_status.exhaust by auto
  have 2: "map status_name [Pending, Paid, Confirmed, Expired, Cancelled, Failed] =
     [''pending'', ''paid'', ''confirmed'', ''expired'', ''cancelled'', ''failed'']"
    by simp
  have 3: "fst (create_order derive cfg catalog now owner plan s) = Inr ord \<Longrightarrow>
      po_status ord = Pending"
    using create_order_Inr by blast
  have 4: "terminal st = (st \<in> {Confirmed, Expired, Cancelled, Failed})"
    by (cases st) (simp_all add: terminal_def)
  have 5: "map fst (status_map t) =
     map status_name [Pending, Paid, Confirmed, Expired, Cancelled, Failed]"
    by (simp add: status_map_def)
  from 1 2 3 4 5 show ?thesis by blast
qed

lemma order_status_machine_example:
  "fst (create_order example_derive example_config example_catalog 0 7 ''monthly'' empty_store) =
     Inr example_payment_order \<and>
   po_status example_payment_order = Pending \<and>
   terminal Expired \<and> \<not> terminal Paid"
  by (simp add: example_create example_payment_order_def terminal_def)

lemma statusText_every_string:
  "statusText t (Some (d\<lparr>status := Some s\<rparr>)) =
     (if s \<in> {''pending'', ''paid'', ''confirmed'', ''expired'', ''cancelled'', ''failed''}
      then Text (or_else (Some (t (''billing.usdt.status.'' @ s))) s)
      else if s \<in> set object_prototype_keys then Inherited s
      else Text (if s = [] then ''--'' else s))"
  by (auto simp: statusText_def status_string_simps status_map_def or_else_def)

lemma statusText_no_status:
  "statusText t None = Text ''--'' \<and> statusText t (Some (d\<lparr>status := None\<rparr>)) = Text ''--''"
  by (simp add: statusText_def status_string_simps status_map_def or_else_def
      object_prototype_keys_def)

text \<open>
  Claim C4. The object literal of \<open>statusText\<close> has exactly the six keys \<open>pending\<close>,
  \<open>paid\<close>, \<open>confirmed\<close>, \<open>expired\<close>, \<open>cancelled\<close>, \<open>failed\<close>, and for each of them
  \<open>statusText\<close> is the translated label (the name itself when the translation is
  empty). \<open>statusColor\<close> is red exactly for \<open>expired\<close>, \<open>failed\<close> and \<open>cancelled\<close>, green
  exactly for \<open>confirmed\<close>, blue exactly for \<open>paid\<close>, and orange, its default, for every
  other string. The label does not fall through for every other string: for a string
  that is neither one of the six nor a member name of \<open>Object.prototype\<close> it is the
  string itself (\<open>--\<close> when there is no status), as for \<open>refunded\<close>; but for a member
  name such as \<open>constructor\<close> the lookup \<open>map[s]\<close> finds the inherited member, which is
  truthy, and \<open>statusText\<close> is that member and not a default, while \<open>statusColor\<close>
  is the default orange on the same order.
\<close>

theorem status_label_and_colour:
  "map fst (status_map t) =
     [''pending'', ''paid'', ''confirmed'', ''expired'', ''cancelled'', ''failed''] \<and>
   statusText t (Some (d\<lparr>status := Some s\<rparr>)) =
     (if s \<in> {''pending'', ''paid'', ''confirmed'', ''expired'', ''cancelled'', ''failed''}
      then Text (or_else (Some (t (''billing.usdt.status.'' @ s))) s)
      else if s \<in> set object_prototype_keys then Inherited s
      else Text (if s = [] then ''--'' else s)) \<and>
   statusText t None = Text ''--'' \<and>
   statusText t (Some (d\<lparr>status := None\<rparr>)) = Text ''--'' \<and>
   statusText t (Some (d\<lparr>status := Some ''refunded''\<rparr>)) = Text ''refunded'' \<and>
   statusText t (Some (d\<lparr>status := Some ''constructor''\<rparr>)) = Inherited ''constructor'' \<and>
   statusColor (Some (d\<lparr>status := Some ''constructor''\<rparr>)) = ''orange'' \<and>
   (statusColor u = ''red'') = (status_string u \<in> {''expired'', ''failed'', ''cancelled''}) \<and>
   (statusColor u = ''green'') = (status_string u = ''confirmed'') \<and>
   (statusColor u = ''blue'') = (status_string u = ''paid'') \<and>
   (statusColor u = ''orange'') =
     (status_string u \<notin> {''confirmed'', ''paid'', ''expired'', ''failed'', ''cancelled''})"
proof -
  have 1: "map fst (status_map t) =
     [''pending'', ''paid'', ''confirmed'', ''expired'', ''cancelled'', ''failed'']"
    by (simp add: status_map_def)
  have 2: "statusText t (Some (d\<lparr>status := Some ''refunded''\<rparr>)) = Text ''refunded''"
    by (simp add: statusText_every_string object_prototype_keys_def)
  have 3: "statusText t (Some (d\<lparr>status := Some ''constructor''\<rparr>)) = Inherited ''constructor''"
    by (simp add: statusText_every_string object_prototype_keys_def)
  have 4: "statusColor (Some (d\<lparr>status := Some ''constructor''\<rparr>)) = ''orange''"
    by (simp add: statusColor_def status_string_simps)
  have 6: "(statusColor u = ''red'') = (status_string u \<in> {''expired'', ''failed'', ''cancelled''})"
    by (simp add: statusColor_def Let_def)
  have 7: "(statusColor u = ''green'') = (status_string u = ''confirmed'')"
    by (simp add: statusColor_def Let_def)
  have 8: "(statusColor u = ''blue'') = (status_string u = ''paid'')"
    by (simp add: statusColor_def Let_def)
  have 9: "(statusColor u = ''orange'') =
     (status_string u \<notin> {''confirmed'', ''paid'', ''expired'', ''failed'', ''cancelled''})"
    by (simp add: statusColor_def Let_def)
  from 1 2 3 4 6 7 8 9 statusText_every_string [where t = t and d = d and s = s]
    statusText_no_status [where t = t and d = d]
  show ?thesis by blast
qed

text \<open>
  Claim C5. \<open>getUsdtOrder\<close> sends \<open>GET /api/billing/usdt/order/<order_id>\<close> with the
  query parameter \<open>refresh\<close> 1 when its second argument is true, 0 when it is false,
  and the argument defaults to true. A refresh of the order on display, for every
  non-empty \<open>order_id\<close>, sends exactly one such request with \<open>refresh = 1\<close> (followed by the
  request of \<open>load\<close> when the answer reports the order confirmed). The guard at the head
  of \<open>refreshUsdtOrder\<close> returns before any request when no order is on display or the
  order has no \<open>order_id\<close>.
\<close>

theorem refresh_requests_reconciliation:
  "getUsdtOrder oid (Some True) =
     \<lparr>url = ''/api/billing/usdt/order/'' @ oid, verb = GET,
      params = [(''refresh'', 1)], payload = []\<rparr> \<and>
   getUsdtOrder oid (Some False) =
     \<lparr>url = ''/api/billing/usdt/order/'' @ oid, verb = GET,
      params = [(''refresh'', 0)], payload = []\<rparr> \<and>
   getUsdtOrder oid None = getUsdtOrder oid (Some True) \<and>
   (usdtOrder w = Some d \<and> order_id d = Some oid \<and> oid \<noteq> [] \<longrightarrow>
      sent (refresh_begin w) = sent w @ [getUsdtOrder oid (Some True)] \<and>
      sent (refreshUsdtOrder t out lo w) =
        sent w @
        [\<lparr>url = ''/api/billing/usdt/order/'' @ oid, verb = GET,
          params = [(''refresh'', 1)], payload = []\<rparr>] @
        (if confirms out then [getMembershipPlans] else []))"
proof -
  have 1: "getUsdtOrder oid (Some True) =
     \<lparr>url = ''/api/billing/usdt/order/'' @ oid, verb = GET,
      params = [(''refresh'', 1)], payload = []\<rparr>"
    by (simp add: getUsdtOrder_def UsdtOrder_def)
  have 2: "getUsdtOrder oid (Some False) =
     \<lparr>url = ''/api/billing/usdt/order/'' @ oid, verb = GET,
      params = [(''refresh'', 0)], payload = []\<rparr>"
    by (simp add: getUsdtOrder_def UsdtOrder_def)
  have 3: "getUsdtOrder oid None = getUsdtOrder oid (Some True)"
    by (simp add: getUsdtOrder_def)
  have 4: "usdtOrder w = Some d \<Longrightarrow> order_id d = Some oid \<Longrightarrow> oid \<noteq> [] \<Longrightarrow>
      sent (refresh_begin w) = sent w @ [getUsdtOrder oid (Some True)]"
    by (simp add: refresh_begin_def)
  show ?thesis
    using 2 3 4 refresh_sent [of w d oid t out lo] unfolding 1 by simp
qed

text \<open>A refresh of the example order sends one request for order 42 with \<open>refresh = 1\<close>.\<close>

theorem refresh_requests_reconciliation_witness:
  "sent (refreshUsdtOrder (\<lambda>k. k) (Rejected None) (Rejected None) example_page) =
     [createUsdtOrder ''monthly'',
      \<lparr>url = ''/api/billing/usdt/order/42'', verb = GET,
       params = [(''refresh'', 1)], payload = []\<rparr>]"
  using refresh_requests_reconciliation
    [of "''42''" example_page example_order "\<lambda>k. k" "Rejected None" "Rejected None"]
  by (simp add: example_page_eq example_order_def confirms_def succeeded_def)

text \<open>
  Claim C6. \<open>buy\<close> posts the plan to \<open>/api/billing/usdt/create\<close>. On a successful
  response the page shows the returned order as it came (with its \<open>address\<close> and
  \<open>amount_usdt\<close>), opens the modal and schedules one interval of 5000 ms; when that
  interval fires, the page requests a refresh of this order (an order with a non-empty
  \<open>order_id\<close>). On an unsuccessful response the order on display, the modal and the timer
  are what they were: no order is shown and no polling starts.
\<close>

theorem purchase_flow:
  "sent (buy_begin plan w) =
     sent w @ [\<lparr>url = ''/api/billing/usdt/create'', verb = POST, params = [],
                payload = [(''plan'', plan)]\<rparr>] \<and>
   (polling_inv w \<and> succeeded out = Some d \<longrightarrow>
      usdtOrder (buy t plan out w) = Some d \<and>
      usdtModalVisible (buy t plan out w) \<and>
      usdtPollingTimer (buy t plan out w) = Some (next_handle w) \<and>
      intervals (buy t plan out w) = [(next_handle w, 5000)]) \<and>
   (polling_inv w \<and> succeeded out = Some d \<and> order_id d = Some oid \<and> oid \<noteq> [] \<longrightarrow>
      sent (step t (Interval_fired (next_handle w)) (buy t plan out w)) =
        sent (buy t plan out w) @ [getUsdtOrder oid (Some True)]) \<and>
   (succeeded out = None \<longrightarrow>
      usdtOrder (buy t plan out w) = usdtOrder w \<and>
      usdtModalVisible (buy t plan out w) = usdtModalVisible w \<and>
      usdtPollingTimer (buy t plan out w) = usdtPollingTimer w \<and>
      intervals (buy t plan out w) = intervals w)"
proof -
  let ?w0 = "buy_begin plan w"
  have b: "usdtPollingTimer ?w0 = usdtPollingTimer w" "intervals ?w0 = intervals w"
    "next_handle ?w0 = next_handle w" "usdtOrder ?w0 = usdtOrder w"
    "usdtModalVisible ?w0 = usdtModalVisible w"
    by (simp_all add: buy_begin_def)
  have 1: "sent ?w0 =
     sent w @ [\<lparr>url = ''/api/billing/usdt/create'', verb = POST, params = [],
                payload = [(''plan'', plan)]\<rparr>]"
    by (simp add: buy_begin_def createUsdtOrder_def UsdtCreate_def)
  have inv: "polling_inv w \<Longrightarrow> polling_inv ?w0"
    by (rule polling_inv_cong) (simp_all add: b)
  have 2: "polling_inv w \<Longrightarrow> succeeded out = Some d \<Longrightarrow>
      usdtOrder (buy t plan out w) = Some d \<and>
      usdtModalVisible (buy t plan out w) \<and>
      usdtPollingTimer (buy t plan out w) = Some (next_handle w) \<and>
      intervals (buy t plan out w) = [(next_handle w, 5000)]"
    using buy_resume_succeeded [of ?w0 out d t] inv by (simp add: buy_def b)
  have 3: "polling_inv w \<Longrightarrow> succeeded out = Some d \<Longrightarrow> order_id d = Some oid \<Longrightarrow>
      oid \<noteq> [] \<Longrightarrow>
      sent (step t (Interval_fired (next_handle w)) (buy t plan out w)) =
        sent (buy t plan out w) @ [getUsdtOrder oid (Some True)]"
    using 2 by (simp add: refresh_begin_def)
  have 4: "succeeded out = None \<Longrightarrow>
      usdtOrder (buy t plan out w) = usdtOrder w \<and>
      usdtModalVisible (buy t plan out w) = usdtModalVisible w \<and>
      usdtPollingTimer (buy t plan out w) = usdtPollingTimer w \<and>
      intervals (buy t plan out w) = intervals w"
    using buy_resume_failed [of out t ?w0] by (simp add: buy_def b)
  from 1 2 3 4 show ?thesis by blast
qed

text \<open>
  The purchase that returns the example order, and a purchase whose request is rejected,
  both from the initial page.
\<close>

theorem purchase_flow_witness:
  "usdtOrder example_page = Some example_order \<and>
   address example_order = Some ''TXYZ'' \<and> amount_usdt example_order = Some ''19.9'' \<and>
   usdtModalVisible example_page \<and>
   intervals example_page = [(1, 5000)] \<and>
   sent (step (\<lambda>k. k) (Interval_fired 1) example_page) =
     sent example_page @ [getUsdtOrder ''42'' (Some True)] \<and>
   usdtOrder (buy (\<lambda>k. k) ''monthly'' (Rejected None) (initial 1)) = None \<and>
   intervals (buy (\<lambda>k. k) ''monthly'' (Rejected None) (initial 1)) = []"
proof -
  have i: "polling_inv (initial 1)"
    by (simp add: initial_inv)
  have s: "succeeded (Resolved (Some \<lparr>code = 1, msg = None, data = Some example_order\<rparr>))
             = Some example_order"
    by (simp add: succeeded_def)
  have r: "succeeded (Rejected None :: usdt_order outcome) = None"
    by (simp add: succeeded_def)
  have n: "next_handle (initial 1) = 1" "usdtOrder (initial 1) = None" "intervals (initial 1) = []"
    by (simp_all add: initial_def)
  have o: "order_id example_order = Some ''42''" "address example_order = Some ''TXYZ''"
    "amount_usdt example_order = Some ''19.9''"
    by (simp_all add: example_order_def)
  note pf = purchase_flow
      [of "''monthly''" "initial 1"
        "Resolved (Some \<lparr>code = 1, msg = None, data = Some example_order\<rparr>)" example_order
        "\<lambda>k. k" "''42''", folded example_page_def]
  have ne: "''42'' \<noteq> []"
    by simp
  from pf i s have a: "usdtOrder example_page = Some example_order \<and>
     usdtModalVisible example_page \<and>
     intervals example_page = [(next_handle (initial 1), 5000)]"
    by blast
  from pf i s o(1) ne have b:
    "sent (step (\<lambda>k. k) (Interval_fired (next_handle (initial 1))) example_page) =
       sent example_page @ [getUsdtOrder ''42'' (Some True)]"
    by blast
  from a b have 1: "usdtOrder example_page = Some example_order \<and>
     usdtModalVisible example_page \<and>
     intervals example_page = [(1, 5000)] \<and>
     sent (step (\<lambda>k. k) (Interval_fired 1) example_page) =
       sent example_page @ [getUsdtOrder ''42'' (Some True)]"
    unfolding n by simp
  have 2: "usdtOrder (buy (\<lambda>k. k) ''monthly'' (Rejected None) (initial 1)) = None \<and>
     intervals (buy (\<lambda>k. k) ''monthly'' (Rejected None) (initial 1)) = []"
    using purchase_flow
      [of "''monthly''" "initial 1" "Rejected None" example_order "\<lambda>k. k" "''42''"] r n
    by simp
  from 1 2 o(2,3) show ?thesis by blast
qed

text \<open>
  Claim C7. The client's default plan table prices the monthly plan at 19.9, the yearly
  plan at 199 and the lifetime plan at 499. A created order has as \<open>expected_amount\<close>
  the price the catalog gives its plan at that moment, so 19.90 for a monthly order
  under a catalog that prices the monthly plan at 19.90; and no later operation on the
  store, under whatever catalog, changes the \<open>expected_amount\<close> of an order the store
  holds. On the client, reloading the plan table does not touch the order on display.
\<close>

theorem expected_amount_fixed_at_creation:
  "price_usd (monthly default_plans) = 199 / 10 \<and>
   price_usd (yearly default_plans) = 199 \<and>
   price_usd (lifetime default_plans) = 499 \<and>
   plans (initial n) = default_plans \<and>
   (fst (create_order derive cfg catalog now owner plan s) = Inr ord \<longrightarrow>
      catalog plan = Some (po_expected_amount ord) \<and> po_plan ord = plan \<and>
      orders (snd (create_order derive cfg catalog now owner plan s)) = orders s @ [ord]) \<and>
   (catalog ''monthly'' = Some (199 / 10) \<and>
    fst (create_order derive cfg catalog now owner ''monthly'' s) = Inr ord' \<longrightarrow>
      po_expected_amount ord' = 199 / 10) \<and>
   (k < length (orders s) \<longrightarrow>
      k < length (orders (apply_ops derive cfg ops s)) \<and>
      po_expected_amount (orders (apply_ops derive cfg ops s) ! k) =
        po_expected_amount (orders s ! k)) \<and>
   usdtOrder (load lo w) = usdtOrder w"
proof -
  have 1: "price_usd (monthly default_plans) = 199 / 10 \<and>
     price_usd (yearly default_plans) = 199 \<and>
     price_usd (lifetime default_plans) = 499 \<and>
     plans (initial n) = default_plans"
    by (simp add: default_plans_def initial_def)
  have 2: "fst (create_order derive cfg catalog now owner plan s) = Inr ord \<Longrightarrow>
      catalog plan = Some (po_expected_amount ord) \<and> po_plan ord = plan \<and>
      orders (snd (create_order derive cfg catalog now owner plan s)) = orders s @ [ord]"
    using create_order_Inr [of derive cfg catalog now owner plan s ord] by blast
  have 3: "catalog ''monthly'' = Some (199 / 10) \<and>
    fst (create_order derive cfg catalog now owner ''monthly'' s) = Inr ord' \<Longrightarrow>
      po_expected_amount ord' = 199 / 10"
    using create_order_Inr [of derive cfg catalog now owner "''monthly''" s ord'] by simp
  have 4: "k < length (orders s) \<Longrightarrow>
      k < length (orders (apply_ops derive cfg ops s)) \<and>
      po_expected_amount (orders (apply_ops derive cfg ops s) ! k) =
        po_expected_amount (orders s ! k)"
    using apply_ops_expected_prefix [of derive cfg ops s] prefix_nth by blast
  have 5: "usdtOrder (load lo w) = usdtOrder w"
    by (simp add: load_def load_begin_def load_resume_def Let_def split: option.splits)
  from 1 2 3 4 5 show ?thesis by blast
qed

text \<open>
  The first monthly order expects 19.9 and still does after the monthly price has been
  raised to 29.9, a second monthly order has been created at that price and the sweeper
  has run.
\<close>

theorem expected_amount_fixed_at_creation_witness:
  "fst (create_order example_derive example_config example_catalog 0 7 ''monthly'' empty_store) =
     Inr example_payment_order \<and>
   po_expected_amount example_payment_order = 199 / 10 \<and>
   po_expected_amount
     (orders (apply_ops example_derive example_config
        [Create raised_catalog 60 8 ''monthly'', Sweep 5000] example_store) ! 0) = 199 / 10 \<and>
   map po_expected_amount
     (orders (apply_ops example_derive example_config
        [Create raised_catalog 60 8 ''monthly'', Sweep 5000] example_store)) =
     [199 / 10, 299 / 10]"
proof -
  have c: "fst (create_order example_derive example_config example_catalog 0 7 ''monthly''
      empty_store) = Inr example_payment_order"
    by (simp add: example_create)
  have m: "example_catalog ''monthly'' = Some (199 / 10)"
    by (simp add: example_catalog_def)
  have k: "0 < length (orders example_store)"
    "po_expected_amount (orders example_store ! 0) = 199 / 10"
    by (simp_all add: example_store_def example_payment_order_def)
  note th = expected_amount_fixed_at_creation
    [where derive = example_derive and cfg = example_config and catalog = example_catalog
      and now = 0 and owner = 7 and plan = "''monthly''" and s = empty_store
      and ord = example_payment_order and ord' = example_payment_order]
  from th c m have 1: "po_expected_amount example_payment_order = 199 / 10"
    by blast
  from expected_amount_fixed_at_creation
    [where derive = example_derive and cfg = example_config and k = 0 and s = example_store
      and ops = "[Create raised_catalog 60 8 ''monthly'', Sweep 5000]"] k(1)
  have "po_expected_amount
     (orders (apply_ops example_derive example_config
        [Create raised_catalog 60 8 ''monthly'', Sweep 5000] example_store) ! 0) =
     po_expected_amount (orders example_store ! 0)"
    by blast
  then have 2: "po_expected_amount
     (orders (apply_ops example_derive example_config
        [Create raised_catalog 60 8 ''monthly'', Sweep 5000] example_store) ! 0) = 199 / 10"
    unfolding k(2) .
  have 3: "map po_expected_amount
     (orders (apply_ops example_derive example_config
        [Create raised_catalog 60 8 ''monthly'', Sweep 5000] example_store)) =
     [199 / 10, 299 / 10]"
    by (simp add: apply_ops_def example_store_def create_order_def example_derive_def
        example_config_def raised_catalog_def example_payment_order_def expire_def Let_def)
  from c 1 2 3 show ?thesis by blast
qed

text \<open>
  Claim C8. While the timer is active, closing the modal and destroying the page stop
  it; a call of \<open>refreshUsdtOrder\<close> stops it exactly when the call is made and its
  response is a success with status \<open>confirmed\<close>; a purchase and \<open>load\<close> leave a timer
  active; and an event after which the handle is null is the closing of the modal, the
  destruction of the page or the end of a refresh that saw \<open>confirmed\<close> (the resumption
  after \<open>await this.load()\<close>). Hence any number of firings whose responses are not
  confirmed leave the interval scheduled, and for an order with status \<open>expired\<close>,
  \<open>cancelled\<close> or \<open>failed\<close> and a non-empty \<open>order_id\<close>, \<open>n\<close> firings send \<open>n\<close>
  refresh requests, for every \<open>n\<close>.
\<close>

theorem polling_stops_only_on_confirmed_close_destroy:
  assumes "polling_inv w" and "usdtPollingTimer w = Some h"
  shows
    "usdtPollingTimer (closeUsdtModal w) = None \<and>
     usdtPollingTimer (beforeDestroy w) = None \<and>
     usdtPollingTimer (refreshUsdtOrder t out lo w) =
       (if confirms out \<and> \<not> refresh_skips w then None else Some h) \<and>
     intervals (refreshUsdtOrder t out lo w) =
       (if confirms out \<and> \<not> refresh_skips w then [] else [(h, 5000)]) \<and>
     usdtPollingTimer (buy t plan bout w) \<noteq> None \<and>
     usdtPollingTimer (load lo w) = Some h \<and>
     (usdtPollingTimer (step t e w) = None \<longrightarrow>
        e = Modal_closed \<or> e = Destroyed \<or> (\<exists>lo'. e = Refresh_plans_loaded lo')) \<and>
     ((\<forall>out' \<in> set outs. \<not> confirms out') \<longrightarrow>
        usdtPollingTimer (poll t outs lo w) = Some h \<and>
        intervals (poll t outs lo w) = [(h, 5000)]) \<and>
     (usdtOrder w = Some d \<and> order_id d = Some oid \<and> oid \<noteq> [] \<and>
      status d \<in> {Some ''expired'', Some ''cancelled'', Some ''failed''} \<longrightarrow>
        sent (poll t (replicate n (Resolved (Some \<lparr>code = 1, msg = m, data = Some d\<rparr>))) lo w) =
          sent w @ replicate n (getUsdtOrder oid (Some True)) \<and>
        usdtPollingTimer
          (poll t (replicate n (Resolved (Some \<lparr>code = 1, msg = m, data = Some d\<rparr>))) lo w) =
          Some h)"
proof -
  have iv: "intervals w = [(h, 5000)]"
    using assms by (simp add: polling_inv_def)
  have 1: "usdtPollingTimer (closeUsdtModal w) = None"
    using stop_clears [OF close_inv [OF assms(1)]] stop_clears [of "w\<lparr>usdtModalVisible := False\<rparr>"] assms
    by (auto simp: closeUsdtModal_def polling_inv_def)
  have 2: "usdtPollingTimer (beforeDestroy w) = None"
    using stop_clears [OF assms(1)] by (simp add: beforeDestroy_def)
  have 3: "usdtPollingTimer (refreshUsdtOrder t out lo w) =
       (if confirms out \<and> \<not> refresh_skips w then None else Some h) \<and>
     intervals (refreshUsdtOrder t out lo w) =
       (if confirms out \<and> \<not> refresh_skips w then [] else [(h, 5000)])"
  proof (cases "confirms out \<and> \<not> refresh_skips w")
    case True
    then show ?thesis using refresh_confirmed [OF assms(1), of out t lo] by simp
  next
    case False
    have "usdtPollingTimer (refreshUsdtOrder t out lo w) = usdtPollingTimer w \<and>
          intervals (refreshUsdtOrder t out lo w) = intervals w"
    proof (cases "refresh_skips w")
      case True
      then show ?thesis by (simp add: refreshUsdtOrder_def)
    next
      case nskip: False
      with False have "\<not> confirms out" by simp
      then show ?thesis by (simp add: refresh_unconfirmed)
    qed
    with False assms(2) iv show ?thesis by simp
  qed
  have 4: "usdtPollingTimer (buy t plan bout w) \<noteq> None"
  proof (cases "succeeded bout")
    case None
    then show ?thesis
      using buy_resume_failed [of bout t "buy_begin plan w"] assms(2)
      by (simp add: buy_def buy_begin_timer)
  next
    case (Some d')
    have "polling_inv (buy_begin plan w)"
      using assms(1) by (rule polling_inv_cong) (rule buy_begin_timer)
    then show ?thesis
      using buy_resume_succeeded [of "buy_begin plan w" bout d' t] Some
      by (simp add: buy_def)
  qed
  have 5: "usdtPollingTimer (load lo w) = Some h"
    using assms(2) by (simp add: load_def load_resume_timer load_begin_timer)
  have 6: "usdtPollingTimer (step t e w) = None \<Longrightarrow>
        e = Modal_closed \<or> e = Destroyed \<or> (\<exists>lo'. e = Refresh_plans_loaded lo')"
    using assms(2) by (rule step_stops)
  have 7: "\<forall>out' \<in> set outs. \<not> confirms out' \<Longrightarrow>
        usdtPollingTimer (poll t outs lo w) = Some h \<and>
        intervals (poll t outs lo w) = [(h, 5000)]"
    using poll_unconfirmed [of outs t lo w] assms(2) iv by simp
  have 8: "usdtOrder w = Some d \<and> order_id d = Some oid \<and> oid \<noteq> [] \<and>
      status d \<in> {Some ''expired'', Some ''cancelled'', Some ''failed''} \<Longrightarrow>
        sent (poll t (replicate n (Resolved (Some \<lparr>code = 1, msg = m, data = Some d\<rparr>))) lo w) =
          sent w @ replicate n (getUsdtOrder oid (Some True)) \<and>
        usdtPollingTimer
          (poll t (replicate n (Resolved (Some \<lparr>code = 1, msg = m, data = Some d\<rparr>))) lo w) =
          Some h"
  proof -
    assume a: "usdtOrder w = Some d \<and> order_id d = Some oid \<and> oid \<noteq> [] \<and>
      status d \<in> {Some ''expired'', Some ''cancelled'', Some ''failed''}"
    then have nc: "status d \<noteq> Some ''confirmed''"
      by auto
    then have "\<not> confirms (Resolved (Some \<lparr>code = 1, msg = m, data = Some d\<rparr>))"
      by (simp add: confirms_def succeeded_def)
    then have "\<forall>out' \<in> set (replicate n (Resolved (Some \<lparr>code = 1, msg = m, data = Some d\<rparr>))).
        \<not> confirms out'"
      by simp
    then have "usdtPollingTimer
          (poll t (replicate n (Resolved (Some \<lparr>code = 1, msg = m, data = Some d\<rparr>))) lo w) =
          usdtPollingTimer w"
      using poll_unconfirmed by blast
    moreover have "sent (poll t (replicate n (Resolved (Some \<lparr>code = 1, msg = m, data = Some d\<rparr>))) lo w) =
          sent w @ replicate n (getUsdtOrder oid (Some True))"
      using a nc iv by (intro poll_same_order) simp_all
    ultimately show ?thesis using assms(2) by simp
  qed
  from 1 2 3 4 5 6 7 8 show ?thesis by blast
qed

text \<open>
  Three firings on the page that shows the expired order: three more requests, and the
  timer still active; closing or destroying stops it.
\<close>

theorem polling_stops_only_on_confirmed_close_destroy_witness:
  "usdtPollingTimer expired_page = Some 1 \<and>
   usdtPollingTimer
     (poll (\<lambda>k. k)
        (replicate 3 (Resolved (Some \<lparr>code = 1, msg = None, data = Some expired_order\<rparr>)))
        (Rejected None) expired_page) = Some 1 \<and>
   sent
     (poll (\<lambda>k. k)
        (replicate 3 (Resolved (Some \<lparr>code = 1, msg = None, data = Some expired_order\<rparr>)))
        (Rejected None) expired_page) =
     [createUsdtOrder ''monthly'', getUsdtOrder ''42'' (Some True),
      getUsdtOrder ''42'' (Some True), getUsdtOrder ''42'' (Some True)] \<and>
   intervals (poll (\<lambda>k. k) [Rejected None, Resolved None] (Rejected None) expired_page) =
     [(1, 5000)] \<and>
   usdtPollingTimer (closeUsdtModal expired_page) = None \<and>
   usdtPollingTimer (beforeDestroy expired_page) = None"
proof -
  have i: "polling_inv expired_page"
    by (simp add: polling_inv_def expired_page_eq)
  have h: "usdtPollingTimer expired_page = Some 1"
    by (simp add: expired_page_eq)
  have d: "usdtOrder expired_page = Some expired_order \<and> order_id expired_order = Some ''42'' \<and>
      ''42'' \<noteq> [] \<and>
      status expired_order \<in> {Some ''expired'', Some ''cancelled'', Some ''failed''}"
    by (simp add: expired_page_eq expired_order_eq)
  note th = polling_stops_only_on_confirmed_close_destroy
    [OF i h, of "\<lambda>k. k" "Rejected None" "Rejected None" "''monthly''" "Rejected None"
      Modal_closed "[Rejected None, Resolved None]" expired_order "''42''" 3 None]
  from th d have
    "sent
     (poll (\<lambda>k. k)
        (replicate 3 (Resolved (Some \<lparr>code = 1, msg = None, data = Some expired_order\<rparr>)))
        (Rejected None) expired_page) =
     sent expired_page @ replicate 3 (getUsdtOrder ''42'' (Some True)) \<and>
     usdtPollingTimer
     (poll (\<lambda>k. k)
        (replicate 3 (Resolved (Some \<lparr>code = 1, msg = None, data = Some expired_order\<rparr>)))
        (Rejected None) expired_page) = Some 1"
    by blast
  moreover have "sent expired_page @ replicate 3 (getUsdtOrder ''42'' (Some True)) =
     [createUsdtOrder ''monthly'', getUsdtOrder ''42'' (Some True),
      getUsdtOrder ''42'' (Some True), getUsdtOrder ''42'' (Some True)]"
    by (simp add: expired_page_eq numeral_3_eq_3)
  moreover from th have "usdtPollingTimer (closeUsdtModal expired_page) = None \<and>
     usdtPollingTimer (beforeDestroy expired_page) = None"
    by blast
  moreover have "\<forall>out' \<in> set [Rejected None, Resolved None :: usdt_order outcome].
      \<not> confirms out'"
    by (simp add: confirms_def succeeded_def)
  with th have
    "intervals (poll (\<lambda>k. k) [Rejected None, Resolved None] (Rejected None) expired_page) =
       [(1, 5000)]"
    by blast
  ultimately show ?thesis using h by simp
qed

text \<open>
  Claim C9. The timer invariant (the handle is null and no interval is scheduled, or it
  is the handle of the one scheduled interval) holds of the initial page and is
  preserved by every sequence of events, that is by every interleaving of the pieces of
  \<open>buy\<close>, \<open>refreshUsdtOrder\<close>, \<open>load\<close>, \<open>closeUsdtModal\<close> and \<open>beforeDestroy\<close>. So at most
  one interval is ever scheduled, and the handle is non-null exactly when one is.
  \<open>stopUsdtPolling\<close> clears the interval and nulls the handle, \<open>startUsdtPolling\<close> leaves
  exactly the new interval, and two purchases that overlap (both requests sent before
  either response arrives) leave one interval, the second one's.
\<close>

theorem at_most_one_polling_timer:
  "(0 < n \<longrightarrow> polling_inv (initial n)) \<and>
   (polling_inv w \<longrightarrow>
      polling_inv (run t es w) \<and>
      length (intervals (run t es w)) \<le> 1 \<and>
      (usdtPollingTimer (run t es w) \<noteq> None) = (length (intervals (run t es w)) = 1) \<and>
      usdtPollingTimer (stopUsdtPolling w) = None \<and>
      intervals (stopUsdtPolling w) = [] \<and>
      usdtPollingTimer (startUsdtPolling w) = Some (next_handle w) \<and>
      intervals (startUsdtPolling w) = [(next_handle w, 5000)] \<and>
      (succeeded o1 = Some d1 \<and> succeeded o2 = Some d2 \<longrightarrow>
         intervals
           (run t [Buy_clicked p1, Buy_clicked p2, Order_created o1, Order_created o2] w) =
           [(Suc (next_handle w), 5000)] \<and>
         usdtPollingTimer
           (run t [Buy_clicked p1, Buy_clicked p2, Order_created o1, Order_created o2] w) =
           Some (Suc (next_handle w)) \<and>
         usdtOrder
           (run t [Buy_clicked p1, Buy_clicked p2, Order_created o1, Order_created o2] w) =
           Some d2))"
proof -
  have 1: "0 < n \<Longrightarrow> polling_inv (initial n)"
    by (rule initial_inv)
  have 2: "polling_inv w \<Longrightarrow> polling_inv (run t es w) \<and>
      length (intervals (run t es w)) \<le> 1 \<and>
      (usdtPollingTimer (run t es w) \<noteq> None) = (length (intervals (run t es w)) = 1)"
    using run_inv [of w t es] inv_one_timer [of "run t es w"] by blast
  have 3: "polling_inv w \<Longrightarrow> usdtPollingTimer (stopUsdtPolling w) = None \<and>
      intervals (stopUsdtPolling w) = []"
    by (rule stop_clears)
  have 4: "polling_inv w \<Longrightarrow> usdtPollingTimer (startUsdtPolling w) = Some (next_handle w) \<and>
      intervals (startUsdtPolling w) = [(next_handle w, 5000)]"
    using start_fresh [of w] by blast
  have 5: "intervals
           (run t [Buy_clicked p1, Buy_clicked p2, Order_created o1, Order_created o2] w) =
           [(Suc (next_handle w), 5000)] \<and>
         usdtPollingTimer
           (run t [Buy_clicked p1, Buy_clicked p2, Order_created o1, Order_created o2] w) =
           Some (Suc (next_handle w)) \<and>
         usdtOrder
           (run t [Buy_clicked p1, Buy_clicked p2, Order_created o1, Order_created o2] w) =
           Some d2"
    if inv: "polling_inv w" and s: "succeeded o1 = Some d1 \<and> succeeded o2 = Some d2"
  proof -
    let ?w2 = "buy_begin p2 (buy_begin p1 w)"
    have b: "usdtPollingTimer ?w2 = usdtPollingTimer w \<and> intervals ?w2 = intervals w \<and>
        next_handle ?w2 = next_handle w"
      by (simp add: buy_begin_def)
    have i2: "polling_inv ?w2"
      using inv b by (rule polling_inv_cong)
    let ?w3 = "buy_resume t o1 ?w2"
    have r3: "next_handle ?w3 = Suc (next_handle w)"
      using buy_resume_succeeded [OF i2, of o1 d1 t] s b by simp
    have i3: "polling_inv ?w3"
      using i2 by (rule buy_resume_inv)
    have "usdtOrder (buy_resume t o2 ?w3) = Some d2 \<and>
      usdtPollingTimer (buy_resume t o2 ?w3) = Some (next_handle ?w3) \<and>
      intervals (buy_resume t o2 ?w3) = [(next_handle ?w3, 5000)]"
      using buy_resume_succeeded [OF i3, of o2 d2 t] s by simp
    then show ?thesis
      unfolding r3 by (simp add: run_def)
  qed
  from 1 2 3 4 5 show ?thesis by blast
qed

text \<open>
  Two overlapping purchases from the initial page leave the single interval 2; closing
  and destroying the example page leave none.
\<close>

theorem at_most_one_polling_timer_witness:
  "polling_inv (initial 1) \<and>
   intervals
     (run (\<lambda>k. k)
        [Buy_clicked ''monthly'', Buy_clicked ''yearly'',
         Order_created (Resolved (Some \<lparr>code = 1, msg = None, data = Some example_order\<rparr>)),
         Order_created (Resolved (Some \<lparr>code = 1, msg = None, data = Some expired_order\<rparr>))]
        (initial 1)) = [(2, 5000)] \<and>
   usdtPollingTimer
     (run (\<lambda>k. k)
        [Buy_clicked ''monthly'', Buy_clicked ''yearly'',
         Order_created (Resolved (Some \<lparr>code = 1, msg = None, data = Some example_order\<rparr>)),
         Order_created (Resolved (Some \<lparr>code = 1, msg = None, data = Some expired_order\<rparr>))]
        (initial 1)) = Some 2 \<and>
   polling_inv (run (\<lambda>k. k) [Modal_closed, Destroyed, Refresh_clicked] example_page) \<and>
   intervals (run (\<lambda>k. k) [Modal_closed, Destroyed, Refresh_clicked] example_page) = []"
proof -
  have s: "succeeded (Resolved (Some \<lparr>code = 1, msg = None, data = Some example_order\<rparr>))
             = Some example_order \<and>
           succeeded (Resolved (Some \<lparr>code = 1, msg = None, data = Some expired_order\<rparr>))
             = Some expired_order"
    by (simp add: succeeded_def)
  have n: "next_handle (initial 1) = 1"
    by (simp add: initial_def)
  note th = at_most_one_polling_timer
    [of 1 "initial 1" "\<lambda>k. k" "[]"
      "Resolved (Some \<lparr>code = 1, msg = None, data = Some example_order\<rparr>)" example_order
      "Resolved (Some \<lparr>code = 1, msg = None, data = Some expired_order\<rparr>)" expired_order
      "''monthly''" "''yearly''"]
  from th have i: "polling_inv (initial 1)"
    by simp
  from th i s have a: "intervals
     (run (\<lambda>k. k)
        [Buy_clicked ''monthly'', Buy_clicked ''yearly'',
         Order_created (Resolved (Some \<lparr>code = 1, msg = None, data = Some example_order\<rparr>)),
         Order_created (Resolved (Some \<lparr>code = 1, msg = None, data = Some expired_order\<rparr>))]
        (initial 1)) = [(Suc (next_handle (initial 1)), 5000)] \<and>
   usdtPollingTimer
     (run (\<lambda>k. k)
        [Buy_clicked ''monthly'', Buy_clicked ''yearly'',
         Order_created (Resolved (Some \<lparr>code = 1, msg = None, data = Some example_order\<rparr>)),
         Order_created (Resolved (Some \<lparr>code = 1, msg = None, data = Some expired_order\<rparr>))]
        (initial 1)) = Some (Suc (next_handle (initial 1)))"
    by blast
  have c: "intervals (run (\<lambda>k. k) [Modal_closed, Destroyed, Refresh_clicked] example_page) = []"
    by (simp add: run_def closeUsdtModal_def beforeDestroy_def stopUsdtPolling_def
        refresh_begin_def example_page_eq example_order_def)
  from at_most_one_polling_timer
    [of 1 example_page "\<lambda>k. k" "[Modal_closed, Destroyed, Refresh_clicked]"]
    example_page_inv
  have b: "polling_inv (run (\<lambda>k. k) [Modal_closed, Destroyed, Refresh_clicked] example_page)"
    by blast
  from a b i c show ?thesis
    unfolding n by (simp add: numeral_2_eq_2)
qed

text \<open>
  Claim C10. The step indicator \<open>usdtStepCurrent\<close> is 2 for the status \<open>confirmed\<close>, 1
  for \<open>paid\<close> and 0 for everything else: for no order, for an order with a missing
  or empty status, for \<open>pending\<close> and for the terminal \<open>expired\<close>, \<open>cancelled\<close> and
  \<open>failed\<close>, which are therefore shown at the step of a pending order.
\<close>

theorem usdtStepCurrent_total:
  "usdtStepCurrent None = 0 \<and>
   usdtStepCurrent (Some d) =
     (if status d = Some ''confirmed'' then 2 else if status d = Some ''paid'' then 1 else 0) \<and>
   usdtStepCurrent (Some (d\<lparr>status := Some ''confirmed''\<rparr>)) = 2 \<and>
   usdtStepCurrent (Some (d\<lparr>status := Some ''paid''\<rparr>)) = 1 \<and>
   usdtStepCurrent (Some (d\<lparr>status := Some ''pending''\<rparr>)) = 0 \<and>
   usdtStepCurrent (Some (d\<lparr>status := Some ''expired''\<rparr>)) = 0 \<and>
   usdtStepCurrent (Some (d\<lparr>status := Some ''cancelled''\<rparr>)) = 0 \<and>
   usdtStepCurrent (Some (d\<lparr>status := Some ''failed''\<rparr>)) = 0 \<and>
   usdtStepCurrent (Some (d\<lparr>status := Some []\<rparr>)) = 0 \<and>
   usdtStepCurrent (Some (d\<lparr>status := None\<rparr>)) = 0"
  by (auto simp: usdtStepCurrent_def status_string_simps split: option.splits)

end
